theory Spec2Isabelle
  imports Complex_Main
begin

section \<open>Icon sets\<close>

text \<open>
  The data of \<^verbatim>\<open>@iconify/types\<close> as the module reads it. An optional field is an
  \<open>option\<close>: \<open>None\<close> is a field that is absent (\<^verbatim>\<open>undefined\<close>, or \<^verbatim>\<open>null\<close> where the
  source tests with \<^verbatim>\<open>??\<close> or \<^verbatim>\<open>!= null\<close>). A number read from an icon set is a finite
  double, given by its value, a \<open>rat\<close>; the sign of a zero is not modelled. The record
  hierarchy follows the interfaces: \<^verbatim>\<open>IconifyDimenisons\<close>, \<^verbatim>\<open>IconifyOptional\<close>,
  \<^verbatim>\<open>IconifyIcon\<close>, \<^verbatim>\<open>IconifyAlias\<close>, \<^verbatim>\<open>IconifyJSON\<close>. The \<^verbatim>\<open>body\<close> of an icon is
  optional in the model, since the copy of an inherited member (see \<open>resolve\<close>) has
  none. The fields \<^verbatim>\<open>top\<close>, \<^verbatim>\<open>rotate\<close> and \<^verbatim>\<open>id\<close> carry a prime, since HOL has
  constants of these names. The objects \<^verbatim>\<open>icons\<close> and \<^verbatim>\<open>aliases\<close> are finite
  association lists of their own properties.
\<close>

record iconify_dimensions =
  left :: "rat option"
  top' :: "rat option"
  width :: "rat option"
  height :: "rat option"

record iconify_optional = iconify_dimensions +
  rotate' :: "rat option"
  hFlip :: "bool option"
  vFlip :: "bool option"

record iconify_icon = iconify_optional +
  body :: "string option"

record iconify_alias = iconify_optional +
  parent :: string

record iconify_json = iconify_dimensions +
  prefix :: string
  icons :: "(string \<times> iconify_icon) list"
  aliases :: "(string \<times> iconify_alias) list"

text \<open>\<^verbatim>\<open>a ?? d\<close>: the value of \<open>a\<close> unless it is absent.\<close>

definition coalesce :: "'a option \<Rightarrow> 'a \<Rightarrow> 'a" where
  "coalesce a d = (case a of Some v \<Rightarrow> v | None \<Rightarrow> d)"

section \<open>Double arithmetic\<close>

text \<open>
  The result of an arithmetic operation on doubles: a finite value, an infinity or
  \<^verbatim>\<open>NaN\<close>.
\<close>

datatype number = Finite rat | PosInfinity | NegInfinity | NaN

text \<open>
  The number of binary digits of a positive integer, the powers of two, and for a
  positive rational \<open>a\<close> the exponent \<open>e\<close> with \<open>2\<^sup>e \<le> a < 2\<^sup>e\<^sup>+\<^sup>1\<close>.
\<close>

function bit_length :: "int \<Rightarrow> nat" where
  "bit_length n = (if n \<le> 0 then 0 else Suc (bit_length (n div 2)))"
  by pat_completeness auto
termination
  by (relation "measure nat") auto

declare bit_length.simps [simp del]

definition pow2 :: "int \<Rightarrow> rat" where
  "pow2 e = (if 0 \<le> e then 2 ^ nat e else 1 / 2 ^ nat (- e))"

definition ilog2 :: "rat \<Rightarrow> int" where
  "ilog2 a =
     (case quotient_of a of
        (p, q) \<Rightarrow>
          (let d = int (bit_length p) - int (bit_length q)
           in if a < pow2 d then d - 1 else d))"

text \<open>
  Rounding of an exact result to the nearest double, ties to the even significand
  (IEEE 754 binary64): 53 significant bits, the spacing of the subnormal numbers
  below \<open>2\<close> to the \<open>-1022\<close>, and an infinity from \<open>2\<close> to the \<open>1024\<close> on. A result that
  rounds to zero is the zero, whatever its sign.
\<close>

definition round_to_double :: "rat \<Rightarrow> number" where
  "round_to_double x =
     (if x = 0 then Finite 0
      else (let a = \<bar>x\<bar>;
                e = max (ilog2 a) (- 1022);
                ulp = pow2 (e - 52);
                q = a / ulp;
                n = \<lfloor>q\<rfloor>;
                m = (if 1 / 2 < q - of_int n \<or> (q - of_int n = 1 / 2 \<and> odd n) then n + 1 else n);
                r = of_int m * ulp
            in if pow2 1024 \<le> r then (if 0 < x then PosInfinity else NegInfinity)
               else Finite (sgn x * r)))"

text \<open>\<^verbatim>\<open>a + b\<close> and \<^verbatim>\<open>a / b\<close> of two finite doubles: the exact result, rounded.\<close>

definition js_add :: "rat \<Rightarrow> rat \<Rightarrow> number" where
  "js_add a b = round_to_double (a + b)"

definition js_div :: "rat \<Rightarrow> rat \<Rightarrow> number" where
  "js_div a b =
     (if b \<noteq> 0 then round_to_double (a / b)
      else if a = 0 then NaN
      else if 0 < a then PosInfinity else NegInfinity)"

text \<open>
  \<^verbatim>\<open>a % b\<close> of two finite doubles, \<open>b\<close> not zero: the remainder of the division
  truncated towards zero, with the sign of the dividend. It is exact. The source
  divides by the literal 4 only.
\<close>

definition js_rem :: "rat \<Rightarrow> rat \<Rightarrow> rat" where
  "js_rem a b = a - b * of_int (if a / b < 0 then \<lceil>a / b\<rceil> else \<lfloor>a / b\<rfloor>)"

text \<open>A number is falsy when it is zero or \<^verbatim>\<open>NaN\<close>; \<^verbatim>\<open>q || d\<close> replaces a falsy \<open>q\<close>.\<close>

definition truthy :: "number \<Rightarrow> bool" where
  "truthy q = (q \<noteq> Finite 0 \<and> q \<noteq> NaN)"

definition or_else :: "number \<Rightarrow> number \<Rightarrow> number" where
  "or_else q d = (if truthy q then q else d)"

section \<open>Resolution of an icon name\<close>

definition normalizeIcon :: "iconify_icon \<Rightarrow> iconify_json \<Rightarrow> iconify_icon" where
  "normalizeIcon icon data =
     icon\<lparr> left := Some (coalesce (left icon) (coalesce (left data) 0)),
           top' := Some (coalesce (top' icon) (coalesce (top' data) 0)),
           width := Some (coalesce (width icon) (coalesce (width data) 16)),
           height := Some (coalesce (height icon) (coalesce (height data) 16)),
           rotate' := (case rotate' icon of
                         None \<Rightarrow> None
                       | Some r \<Rightarrow> if r \<noteq> 0 then Some (js_rem r 4) else Some r) \<rparr>"

text \<open>
  \<^verbatim>\<open>(parentRotate + aliasRotate) % 4\<close>: the sum is rounded to a double; when it has
  overflowed to an infinity the remainder is \<^verbatim>\<open>NaN\<close>, which is falsy like 0, so the
  field is deleted. \<^verbatim>\<open>parent.hFlip !== alias.hFlip\<close> is strict inequality of two
  optional booleans: an absent flag and an explicit \<^verbatim>\<open>false\<close> are different values.
\<close>

definition mergeAlias :: "iconify_icon \<Rightarrow> iconify_alias \<Rightarrow> iconify_icon" where
  "mergeAlias p alias =
     (let parentRotate = coalesce (rotate' p) 0;
          aliasRotate = coalesce (rotate' alias) 0;
          rotate = (case js_add parentRotate aliasRotate of
                      Finite added \<Rightarrow> Finite (js_rem added 4)
                    | _ \<Rightarrow> NaN)
      in p\<lparr> left := (if left alias \<noteq> None then left alias else left p),
             top' := (if top' alias \<noteq> None then top' alias else top' p),
             width := (if width alias \<noteq> None then width alias else width p),
             height := (if height alias \<noteq> None then height alias else height p),
             rotate' := (case rotate of
                           Finite r \<Rightarrow> if r \<noteq> 0 then Some r else None
                         | _ \<Rightarrow> None),
             hFlip := (if hFlip p \<noteq> hFlip alias then Some True else None),
             vFlip := (if vFlip p \<noteq> vFlip alias then Some True else None) \<rparr>)"

text \<open>
  \<^verbatim>\<open>data.icons?.[key]\<close> reads a property of a plain object: an own property, or else
  a member inherited from \<^verbatim>\<open>Object.prototype\<close>, which is a function or, for
  \<^verbatim>\<open>__proto__\<close>, the prototype itself. Each of these is truthy, and its copy
  \<^verbatim>\<open>{ ...icon }\<close> has no properties.
\<close>

definition object_prototype_keys :: "string list" where
  "object_prototype_keys =
     [''constructor'', ''__defineGetter__'', ''__defineSetter__'', ''hasOwnProperty'',
      ''__lookupGetter__'', ''__lookupSetter__'', ''isPrototypeOf'',
      ''propertyIsEnumerable'', ''toString'', ''valueOf'', ''__proto__'',
      ''toLocaleString'']"

datatype 'a property = Own 'a | Inherited | Missing

definition get_property :: "(string \<times> 'a) list \<Rightarrow> string \<Rightarrow> 'a property" where
  "get_property obj k =
     (case map_of obj k of
        Some v \<Rightarrow> Own v
      | None \<Rightarrow> if k \<in> set object_prototype_keys then Inherited else Missing)"

definition no_properties :: iconify_icon where
  "no_properties =
     \<lparr> left = None, top' = None, width = None, height = None,
       rotate' = None, hFlip = None, vFlip = None, body = None \<rparr>"

text \<open>
  The closure \<^verbatim>\<open>resolve\<close> of \<^verbatim>\<open>resolveIconData\<close>. A name that reaches
  \<^verbatim>\<open>data.aliases?.[key]\<close> is no key of \<^verbatim>\<open>Object.prototype\<close>, since \<^verbatim>\<open>icons\<close> would
  have had it, so only the own properties of \<^verbatim>\<open>aliases\<close> are read there. Its captured \<^verbatim>\<open>visited\<close> set is
  passed in and returned, as the list of its members in insertion order (the order a
  JavaScript \<^verbatim>\<open>Set\<close> keeps); \<^verbatim>\<open>visited.add(key)\<close> runs only after
  \<^verbatim>\<open>visited.has(key)\<close> was false, where it appends.
\<close>

function resolve ::
  "iconify_json \<Rightarrow> string list \<Rightarrow> string \<Rightarrow> iconify_icon option \<times> string list" where
  "resolve data visited key =
     (if key \<in> set visited then (None, visited)
      else (case get_property (icons data) key of
              Own icon \<Rightarrow> (Some (normalizeIcon icon data), visited @ [key])
            | Inherited \<Rightarrow> (Some (normalizeIcon no_properties data), visited @ [key])
            | Missing \<Rightarrow>
               (case map_of (aliases data) key of
                  None \<Rightarrow> (None, visited @ [key])
                | Some alias \<Rightarrow>
                   (case resolve data (visited @ [key]) (parent alias) of
                      (None, v) \<Rightarrow> (None, v)
                    | (Some p, v) \<Rightarrow> (Some (normalizeIcon (mergeAlias p alias) data), v)))))"
  by pat_completeness auto

termination resolve
proof (relation "measure (\<lambda>(data, visited, key). card (fst ` set (aliases data) - set visited))")
  show "wf (measure (\<lambda>(data, visited, key). card (fst ` set (aliases data) - set visited)))"
    by simp
next
  fix data :: "iconify_json" and visited :: "string list" and key :: "string"
    and al :: "iconify_alias"
  assume fresh: "key \<notin> set visited" and entry: "map_of (aliases data) key = Some al"
  have "key \<in> fst ` set (aliases data)"
    using entry by (metis map_of_eq_None_iff option.distinct(1))
  then have "fst ` set (aliases data) - set (visited @ [key])
               \<subset> fst ` set (aliases data) - set visited"
    using fresh by auto
  then have "card (fst ` set (aliases data) - set (visited @ [key]))
               < card (fst ` set (aliases data) - set visited)"
    by (simp add: psubset_card_mono)
  then show "((data, visited @ [key], parent al), (data, visited, key))
               \<in> measure (\<lambda>(data, visited, key). card (fst ` set (aliases data) - set visited))"
    by simp
qed

declare resolve.simps [simp del]

definition resolveIconData :: "iconify_json \<Rightarrow> string \<Rightarrow> iconify_icon option" where
  "resolveIconData data name = fst (resolve data [] name)"

section \<open>The module state and the host\<close>

text \<open>
  The module runs on one thread. Each asynchronous function is run to completion at
  its call, so a promise is represented by its outcome: \<open>Inr v\<close> when it resolves with
  \<open>v\<close>, \<open>Inl e\<close> when it rejects with \<open>e\<close>; a function that may throw returns such a
  sum next to the new state. Interleaving of pending calls and the \<^verbatim>\<open>Log\<close> output are
  not modelled.

  The state holds the three module variables and what the module reads and writes in
  the host: the legacy key-value store \<^verbatim>\<open>ctx.globalState\<close>, the directory
  \<^verbatim>\<open>icon-set-cache\<close> (\<open>None\<close> when it does not exist; a file \<^verbatim>\<open>{id}.json\<close> is keyed by
  its \<open>id\<close>), whether the host file system accepts changes, and what a GET of a URL
  returns (\<open>None\<close> when \<^verbatim>\<open>$fetch\<close> throws). The three module variables are maps of
  the entries the module has stored; names they inherit from \<^verbatim>\<open>Object.prototype\<close> are
  not modelled there.
\<close>

datatype exn = FileNotFound | NoPermissions | Rejection string

datatype file_content = Json iconify_json | Unparsable

type_synonym task_outcome = "exn + iconify_json option"

record state =
  loadedIconSets :: "string \<rightharpoonup> iconify_json"
  dataURLCache :: "string \<rightharpoonup> string"
  tasks :: "string \<rightharpoonup> task_outcome"
  globalState :: "(string \<times> iconify_json) list"
  cacheDir :: "(string \<rightharpoonup> file_content) option"
  fsWritable :: bool
  network :: "string \<rightharpoonup> iconify_json"

text \<open>
  What the module takes from its collaborators: the configuration values of
  \<^verbatim>\<open>./config\<close>, its function \<^verbatim>\<open>parseIcon\<close>, \<^verbatim>\<open>iconToSVG\<close> of \<^verbatim>\<open>@iconify/utils\<close> and
  \<^verbatim>\<open>Base64.encode\<close> of \<^verbatim>\<open>./base64\<close>. They are parameters of the model.
\<close>

record env =
  cdnEntry :: string
  customAliasesOnly :: bool
  enabledAliases :: "string \<rightharpoonup> string"
  customCollections :: "iconify_json list"
  color :: string
  parseIcon :: "string \<Rightarrow> (string \<times> string) option"
  iconToSVG :: "iconify_icon \<Rightarrow> string \<times> rat option \<times> bool option \<times> bool option
                  \<Rightarrow> (string \<times> string) list \<times> string"
  base64_encode :: "string \<Rightarrow> string"

subsection \<open>The request deduplicator\<close>

definition UniqPromise ::
  "(string \<Rightarrow> state \<Rightarrow> task_outcome \<times> state) \<Rightarrow> string \<Rightarrow> state \<Rightarrow> task_outcome \<times> state" where
  "UniqPromise fn i s =
     (case tasks s i of
        Some r \<Rightarrow> (r, s)
      | None \<Rightarrow> (case fn i s of (r, s') \<Rightarrow> (r, s'\<lparr>tasks := (tasks s')(i \<mapsto> r)\<rparr>)))"

definition deleteTask :: "string \<Rightarrow> state \<Rightarrow> state" where
  "deleteTask i s = s\<lparr>tasks := (tasks s)(i := None)\<rparr>"

subsection \<open>The persisted cache\<close>

text \<open>
  \<^verbatim>\<open>workspace.fs.delete\<close> and \<^verbatim>\<open>workspace.fs.writeFile\<close> belong to the host editor.
  Deleting a target that does not exist fails with \<^verbatim>\<open>FileNotFound\<close>, as the editor's
  file system interface specifies; writing creates the missing directories.
\<close>

definition fs_delete :: "state \<Rightarrow> exn + state" where
  "fs_delete s =
     (case cacheDir s of
        None \<Rightarrow> Inl FileNotFound
      | Some d \<Rightarrow> if fsWritable s then Inr (s\<lparr>cacheDir := None\<rparr>) else Inl NoPermissions)"

definition fs_writeFile :: "string \<Rightarrow> iconify_json \<Rightarrow> state \<Rightarrow> exn + state" where
  "fs_writeFile iconSetId data s =
     (if fsWritable s
      then Inr (s\<lparr>cacheDir := Some ((coalesce (cacheDir s) Map.empty)(iconSetId \<mapsto> Json data))\<rparr>)
      else Inl NoPermissions)"

definition startsWith :: "string \<Rightarrow> string \<Rightarrow> bool" where
  "startsWith str p = (take (length p) str = p)"

fun clearLegacy :: "string list \<Rightarrow> state \<Rightarrow> state" where
  "clearLegacy [] s = s"
| "clearLegacy (i # ids) s =
     clearLegacy ids
       (if startsWith i ''icons-''
        then s\<lparr>globalState := filter (\<lambda>(k, v). k \<noteq> i) (globalState s)\<rparr>
        else s)"

definition clearCache :: "state \<Rightarrow> (exn + unit) \<times> state" where
  "clearCache s =
     (let s1 = s\<lparr>tasks := Map.empty\<rparr>
      in case fs_delete s1 of
           Inl e \<Rightarrow> (Inl e, s1)
         | Inr s2 \<Rightarrow>
            (let s3 = clearLegacy (map fst (globalState s2)) s2
             in (Inr (), s3\<lparr>loadedIconSets := Map.empty, dataURLCache := Map.empty\<rparr>)))"

definition writeCache :: "string \<Rightarrow> iconify_json \<Rightarrow> state \<Rightarrow> state" where
  "writeCache iconSetId data s =
     (case fs_writeFile iconSetId data s of Inr s' \<Rightarrow> s' | Inl e \<Rightarrow> s)"

definition loadCache :: "string \<Rightarrow> state \<Rightarrow> iconify_json option" where
  "loadCache iconSetId s =
     (case cacheDir s of
        None \<Rightarrow> None
      | Some d \<Rightarrow> (case d iconSetId of Some (Json j) \<Rightarrow> Some j | _ \<Rightarrow> None))"

text \<open>
  One turn of the loop of \<^verbatim>\<open>migrateCache\<close> for a key with the legacy prefix. A key
  whose entry is gone reads as \<^verbatim>\<open>undefined\<close>, which \<^verbatim>\<open>writeCache\<close> cannot serialise:
  its \<^verbatim>\<open>catch\<close> swallows that.
\<close>

definition migrateEntry :: "string \<Rightarrow> state \<Rightarrow> state" where
  "migrateEntry k s =
     (let cached = map_of (globalState s) k;
          iconSetId = drop (length ''icons-'') k;
          s1 = s\<lparr>loadedIconSets := (loadedIconSets s)(iconSetId := cached)\<rparr>;
          s2 = (case cached of Some c \<Rightarrow> writeCache iconSetId c s1 | None \<Rightarrow> s1)
      in s2\<lparr>globalState := filter (\<lambda>(k', v). k' \<noteq> k) (globalState s2)\<rparr>)"

fun migrateKeys :: "string list \<Rightarrow> state \<Rightarrow> state" where
  "migrateKeys [] s = s"
| "migrateKeys (k # ks) s =
     migrateKeys ks (if startsWith k ''icons-'' then migrateEntry k s else s)"

definition migrateCache :: "state \<Rightarrow> state" where
  "migrateCache s = migrateKeys (map fst (globalState s)) s"

subsection \<open>Loading an icon set\<close>

text \<open>The function that \<^verbatim>\<open>LoadIconSet\<close> hands to the deduplicator.\<close>

definition loadIconSetTask :: "env \<Rightarrow> string \<Rightarrow> state \<Rightarrow> task_outcome \<times> state" where
  "loadIconSetTask e i s0 =
     (let s = migrateCache s0
      in case (case loadedIconSets s i of
                 Some d \<Rightarrow> Some d
               | None \<Rightarrow> find (\<lambda>c. prefix c = i) (customCollections e)) of
           Some data \<Rightarrow> (Inr (Some data), s)
         | None \<Rightarrow>
            (case loadCache i s of
               Some cached \<Rightarrow> (Inr (Some cached), s\<lparr>loadedIconSets := (loadedIconSets s)(i \<mapsto> cached)\<rparr>)
             | None \<Rightarrow>
                (case network s (cdnEntry e @ ''/'' @ i @ ''.json'') of
                   Some data \<Rightarrow>
                     (Inr (Some data),
                      writeCache i data (s\<lparr>loadedIconSets := (loadedIconSets s)(i \<mapsto> data)\<rparr>))
                 | None \<Rightarrow> (Inr None, s))))"

definition LoadIconSet :: "env \<Rightarrow> string \<Rightarrow> state \<Rightarrow> task_outcome \<times> state" where
  "LoadIconSet e = UniqPromise (loadIconSetTask e)"

section \<open>Resolved icon info\<close>

text \<open>
  \<^verbatim>\<open>IconInfo\<close> extends \<^verbatim>\<open>IconifyIcon\<close>; its \<^verbatim>\<open>width\<close> and \<^verbatim>\<open>height\<close> are the inherited
  fields, which \<^verbatim>\<open>getIconInfo\<close> always sets.
\<close>

record icon_info = iconify_icon +
  key :: string
  ratio :: number
  collection :: string
  id' :: string

datatype 'a js_value = Undefined | Null | Value 'a

text \<open>The last step of \<^verbatim>\<open>getIconInfo\<close>: the object it returns for a resolved icon.\<close>

definition makeIconInfo ::
  "iconify_icon \<Rightarrow> iconify_json \<Rightarrow> string \<Rightarrow> string \<Rightarrow> string \<Rightarrow> icon_info" where
  "makeIconInfo iconData data coll icon actualKey =
     (let w = coalesce (width iconData) (coalesce (width data) 16);
          h = coalesce (height iconData) (coalesce (height data) 16)
      in iconify_icon.extend (iconData\<lparr>width := Some w, height := Some h\<rparr>)
           (icon_info.fields actualKey (or_else (js_div w h) (Finite 1)) coll icon))"

text \<open>
  \<^verbatim>\<open>getIconInfo\<close> returns \<^verbatim>\<open>undefined\<close>, \<^verbatim>\<open>null\<close> or an \<^verbatim>\<open>IconInfo\<close>. \<^verbatim>\<open>!alias\<close> holds
  for an absent alias and for the empty string.
\<close>

definition getIconInfo ::
  "env \<Rightarrow> string \<Rightarrow> bool \<Rightarrow> state \<Rightarrow> (exn + icon_info js_value) \<times> state" where
  "getIconInfo e k allowAliases s =
     (let alias = (if allowAliases then enabledAliases e k else None)
      in if allowAliases \<and> customAliasesOnly e \<and> (alias = None \<or> alias = Some [])
         then (Inr Undefined, s)
         else (let actualKey = coalesce alias k
               in case parseIcon e actualKey of
                    None \<Rightarrow> (Inr Undefined, s)
                  | Some (coll, icon) \<Rightarrow>
                     (case LoadIconSet e coll s of
                        (Inl err, s') \<Rightarrow> (Inl err, s')
                      | (Inr None, s') \<Rightarrow> (Inr Null, s')
                      | (Inr (Some data), s') \<Rightarrow>
                         (case resolveIconData data icon of
                            None \<Rightarrow> (Inr Null, s')
                          | Some iconData \<Rightarrow>
                             (Inr (Value (makeIconInfo iconData data coll icon actualKey)), s')))))"

section \<open>Data URLs\<close>

definition toDataUrl :: "env \<Rightarrow> string \<Rightarrow> string" where
  "toDataUrl e str = ''data:image/svg+xml;base64,'' @ base64_encode e str"

fun join :: "string \<Rightarrow> string list \<Rightarrow> string" where
  "join sep [] = []"
| "join sep [x] = x"
| "join sep (x # y # ys) = x @ sep @ join sep (y # ys)"

text \<open>The decimal digits of a natural number, as \<^verbatim>\<open>${fontSize}\<close> prints them.\<close>

fun string_of_nat :: "nat \<Rightarrow> string" where
  "string_of_nat n =
     (if n < 10 then [''0123456789'' ! n]
      else string_of_nat (n div 10) @ [''0123456789'' ! (n mod 10)])"

declare string_of_nat.simps [simp del]

definition pathToSvg :: "env \<Rightarrow> icon_info \<Rightarrow> nat \<Rightarrow> string" where
  \<open>pathToSvg e info fontSize =
     (case iconToSVG e
             \<lparr> left = left info, top' = top' info, width = width info, height = height info,
               rotate' = None, hFlip = None, vFlip = None, body = body info \<rparr>
             (string_of_nat fontSize @ ''px'', rotate' info, hFlip info, vFlip info) of
        (result_attributes, result_body) \<Rightarrow>
          (let attributes =
                 [''xmlns="http://www.w3.org/2000/svg"'',
                  ''xmlns:xlink="http://www.w3.org/1999/xlink"'',
                  ''preserveAspectRatio="xMidYMid meet"'']
                 @ map (\<lambda>(k, v). k @ ''="'' @ v @ ''"'') result_attributes;
               formattedAttributes = join '' '' attributes
           in ''<svg '' @ formattedAttributes @ ''>'' @ result_body @ ''</svg>''))\<close>

text \<open>
  \<^verbatim>\<open>str.replace(/pat/g, rep)\<close> for a literal, non-empty pattern and a replacement
  without \<^verbatim>\<open>$\<close> patterns: every occurrence, left to right, without overlap.
\<close>

function replaceAll :: "string \<Rightarrow> string \<Rightarrow> string \<Rightarrow> string" where
  "replaceAll pat rep [] = []"
| "replaceAll pat rep (c # cs) =
     (if pat \<noteq> [] \<and> take (length pat) (c # cs) = pat
      then rep @ replaceAll pat rep (drop (length pat) (c # cs))
      else c # replaceAll pat rep cs)"
  by pat_completeness auto
termination
  by (relation "measure (\<lambda>(pat, rep, str). length str)") auto

datatype key_or_info = Key string | Info icon_info

text \<open>The miss branch of \<^verbatim>\<open>getDataURL\<close> once the icon is known: render, store, return.\<close>

definition render :: "env \<Rightarrow> string \<Rightarrow> icon_info \<Rightarrow> nat \<Rightarrow> state \<Rightarrow> (exn + string) \<times> state" where
  "render e cacheKey info fontSize s =
     (let url = toDataUrl e (replaceAll ''currentColor'' (color e) (pathToSvg e info fontSize))
      in (Inr url, s\<lparr>dataURLCache := (dataURLCache s)(cacheKey \<mapsto> url)\<rparr>))"

text \<open>
  \<^verbatim>\<open>if (dataURLCache[cacheKey])\<close> is a hit for a stored string that is not empty.
  \<^verbatim>\<open>fontSize\<close> defaults to 32 when the argument is absent.
\<close>

definition getDataURL ::
  "env \<Rightarrow> key_or_info \<Rightarrow> nat option \<Rightarrow> state \<Rightarrow> (exn + string) \<times> state" where
  "getDataURL e keyOrInfo fontSizeArg s =
     (let fontSize = coalesce fontSizeArg 32;
          k = (case keyOrInfo of Key str \<Rightarrow> str | Info i \<Rightarrow> key i);
          cacheKey = color e @ string_of_nat fontSize @ k
      in case dataURLCache s cacheKey of
           Some (c # cs) \<Rightarrow> (Inr (c # cs), s)
         | _ \<Rightarrow>
            (case keyOrInfo of
               Info i \<Rightarrow> render e cacheKey i fontSize s
             | Key str \<Rightarrow>
                (case getIconInfo e k True s of
                   (Inl err, s') \<Rightarrow> (Inl err, s')
                 | (Inr (Value i), s') \<Rightarrow> render e cacheKey i fontSize s'
                 | (Inr _, s') \<Rightarrow> (Inr [], s'))))"

section \<open>Sequences of calls\<close>

text \<open>
  The operations the module exports, each with the configuration in force when it is
  called, and the state a sequence of calls leaves.
\<close>

datatype call =
    CallLoadIconSet string
  | CallDeleteTask string
  | CallClearCache
  | CallGetIconInfo string bool
  | CallGetDataURL key_or_info "nat option"

fun exec :: "env \<Rightarrow> call \<Rightarrow> state \<Rightarrow> state" where
  "exec e (CallLoadIconSet i) s = snd (LoadIconSet e i s)"
| "exec e (CallDeleteTask i) s = deleteTask i s"
| "exec e CallClearCache s = snd (clearCache s)"
| "exec e (CallGetIconInfo k allowAliases) s = snd (getIconInfo e k allowAliases s)"
| "exec e (CallGetDataURL keyOrInfo fontSize) s = snd (getDataURL e keyOrInfo fontSize s)"

fun run :: "(env \<times> call) list \<Rightarrow> state \<Rightarrow> state" where
  "run [] s = s"
| "run ((e, c) # cs) s = run cs (exec e c s)"

section \<open>Chains of aliases\<close>

text \<open>
  The parent an entry of \<^verbatim>\<open>aliases\<close> names, and lists of names in which every name
  has an alias entry whose parent is the next name. A cycle is a chain that returns to
  its first name.
\<close>

definition alias_parent :: "iconify_json \<Rightarrow> string \<Rightarrow> string option" where
  "alias_parent data k = map_option parent (map_of (aliases data) k)"

fun alias_chain :: "iconify_json \<Rightarrow> string list \<Rightarrow> bool" where
  "alias_chain data (k # k' # ks) = (alias_parent data k = Some k' \<and> alias_chain data (k' # ks))"
| "alias_chain data ks = True"

definition alias_cycle :: "iconify_json \<Rightarrow> string list \<Rightarrow> bool" where
  "alias_cycle data ks = (ks \<noteq> [] \<and> alias_chain data (ks @ [hd ks]))"

fun no_icon :: "iconify_json \<Rightarrow> string list \<Rightarrow> bool" where
  "no_icon data [] = True"
| "no_icon data (k # ks) = (get_property (icons data) k = Missing \<and> no_icon data ks)"

section \<open>Example data\<close>

definition plain_icon :: "string \<Rightarrow> iconify_icon" where
  "plain_icon b =
     \<lparr> left = None, top' = None, width = None, height = None,
       rotate' = None, hFlip = None, vFlip = None, body = Some b \<rparr>"

definition plain_alias :: "string \<Rightarrow> iconify_alias" where
  "plain_alias p =
     \<lparr> left = None, top' = None, width = None, height = None,
       rotate' = None, hFlip = None, vFlip = None, parent = p \<rparr>"

definition icon_set ::
  "string \<Rightarrow> (string \<times> iconify_icon) list \<Rightarrow> (string \<times> iconify_alias) list \<Rightarrow> iconify_json" where
  "icon_set p ics als =
     \<lparr> left = None, top' = None, width = None, height = None,
       prefix = p, icons = ics, aliases = als \<rparr>"

text \<open>
  An icon set with a plain icon, an icon of width 20 and height 10, an icon of width
  0, an icon turned once, an alias that turns it twice more, and an alias with an
  explicit \<^verbatim>\<open>hFlip: false\<close> on the plain icon.
\<close>

definition demo_data :: iconify_json where
  "demo_data =
     icon_set ''demo''
       [(''a'', plain_icon ''<path/>''),
        (''wide'', (plain_icon ''<path/>'')\<lparr>width := Some 20, height := Some 10\<rparr>),
        (''flat'', (plain_icon ''<path/>'')\<lparr>width := Some 0\<rparr>),
        (''turned'', (plain_icon ''<path/>'')\<lparr>rotate' := Some 1\<rparr>)]
       [(''more'', (plain_alias ''turned'')\<lparr>rotate' := Some 2\<rparr>),
        (''same'', (plain_alias ''a'')\<lparr>hFlip := Some False\<rparr>)]"

text \<open>Two aliases that name each other, without and with an icon of the first name.\<close>

definition cycle_data :: iconify_json where
  "cycle_data =
     icon_set ''loop'' [] [(''A'', plain_alias ''B''), (''B'', plain_alias ''A'')]"

definition shadowed_cycle_data :: iconify_json where
  "shadowed_cycle_data =
     icon_set ''loop'' [(''A'', plain_icon ''<path/>'')]
       [(''A'', plain_alias ''B''), (''B'', plain_alias ''A'')]"

text \<open>
  Two aliases that name each other, one of them under a name that every object
  inherits; an icon turned three times back, and one turned two to the 53 times, with
  an alias that turns each once more.
\<close>

definition inherited_cycle_data :: iconify_json where
  "inherited_cycle_data =
     icon_set ''loop'' []
       [(''constructor'', plain_alias ''B''), (''B'', plain_alias ''constructor'')]"

definition turns_data :: iconify_json where
  "turns_data =
     icon_set ''turns''
       [(''back'', (plain_icon ''<path/>'')\<lparr>rotate' := Some (- 3)\<rparr>),
        (''many'', (plain_icon ''<path/>'')\<lparr>rotate' := Some 9007199254740992\<rparr>)]
       [(''back1'', (plain_alias ''back'')\<lparr>rotate' := Some 1\<rparr>),
        (''many1'', (plain_alias ''many'')\<lparr>rotate' := Some 1\<rparr>)]"

text \<open>A stand-in for \<^verbatim>\<open>parseIcon\<close>: the text before and after the first colon.\<close>

definition split_colon :: "string \<Rightarrow> (string \<times> string) option" where
  "split_colon k =
     (if CHR '':'' \<in> set k
      then Some (takeWhile (\<lambda>c. c \<noteq> CHR '':'') k, tl (dropWhile (\<lambda>c. c \<noteq> CHR '':'') k))
      else None)"

definition demo_env :: env where
  "demo_env =
     \<lparr> cdnEntry = ''https://cdn.example'',
       customAliasesOnly = False,
       enabledAliases = Map.empty,
       customCollections = [],
       color = ''#fff'',
       parseIcon = split_colon,
       iconToSVG = (\<lambda>icon opts. ([(''height'', fst opts)], coalesce (body icon) [])),
       base64_encode = (\<lambda>str. str) \<rparr>"

text \<open>
  A session in which \<^verbatim>\<open>demo\<close> is loaded in memory, one data URL is cached, one
  legacy entry is left, no cache directory exists yet and the network is down.
\<close>

definition demo_state :: state where
  "demo_state =
     \<lparr> loadedIconSets = [''demo'' \<mapsto> demo_data],
       dataURLCache = [''#fff32demo:a'' \<mapsto> ''data:image/svg+xml;base64,x''],
       tasks = Map.empty,
       globalState = [(''other'', cycle_data)],
       cacheDir = None,
       fsWritable = True,
       network = Map.empty \<rparr>"

text \<open>
  The same session with an entry of the legacy store still in place, and a first
  start without a cache directory, on a file system that rejects changes, with the
  icon set on the network.
\<close>

definition legacy_state :: state where
  "legacy_state = demo_state\<lparr>globalState := [(''icons-old'', cycle_data)]\<rparr>"

definition first_start_state :: state where
  "first_start_state =
     \<lparr> loadedIconSets = Map.empty,
       dataURLCache = Map.empty,
       tasks = Map.empty,
       globalState = [],
       cacheDir = None,
       fsWritable = False,
       network = [''https://cdn.example/demo.json'' \<mapsto> demo_data] \<rparr>"

section \<open>Properties of the double arithmetic\<close>

lemma bit_length_le: "n < 2 ^ w \<Longrightarrow> bit_length n \<le> w"
proof (induction n arbitrary: w rule: bit_length.induct)
  case (1 n)
  show ?case
  proof (cases "n \<le> 0")
    case True
    then show ?thesis by (simp add: bit_length.simps)
  next
    case False
    then obtain v where w: "w = Suc v"
      using "1.prems" by (cases w) auto
    have "n div 2 < 2 ^ v"
      using "1.prems" w by auto
    then have "bit_length (n div 2) \<le> v"
      using "1.IH" False by simp
    then show ?thesis
      using False w by (simp add: bit_length.simps [of n])
  qed
qed

lemma bit_length_1: "bit_length 1 = 1"
  by (simp add: bit_length.simps [of 1] bit_length.simps [of 0])

text \<open>An integer of magnitude below two to the 53 is a double: rounding keeps it.\<close>

lemma round_to_double_int:
  assumes "\<bar>n\<bar> < 2 ^ 53"
  shows "round_to_double (of_int n) = Finite (of_int n)"
proof (cases "n = 0")
  case True
  then show ?thesis by (simp add: round_to_double_def)
next
  case False
  let ?a = "\<bar>of_int n :: rat\<bar>"
  have a: "?a = of_int \<bar>n\<bar>" by simp
  have "bit_length \<bar>n\<bar> \<le> 53"
    using assms by (rule bit_length_le)
  moreover have "quotient_of ?a = (\<bar>n\<bar>, 1)"
    using quotient_of_rat_of_int [of "\<bar>n\<bar>"] by simp
  ultimately have "ilog2 ?a \<le> 52"
    by (simp add: ilog2_def Let_def bit_length_1)
  then have e: "max (ilog2 ?a) (- 1022) \<le> 52" by simp
  define e where "e = max (ilog2 ?a) (- 1022)"
  define k where "k = nat (52 - e)"
  have ulp: "pow2 (e - 52) = 1 / 2 ^ k"
    using e unfolding e_def k_def pow2_def
    by (cases "max (ilog2 ?a) (- 1022) = 52") (simp_all add: algebra_simps)
  have q: "?a / pow2 (e - 52) = of_int (\<bar>n\<bar> * 2 ^ k)"
    unfolding ulp a by simp
  have small: "\<not> pow2 1024 \<le> (of_int \<bar>n\<bar> :: rat)"
  proof -
    have "(of_int \<bar>n\<bar> :: rat) < of_int (2 ^ 53)"
      using assms by (simp only: of_int_less_iff)
    also have "\<dots> \<le> pow2 1024"
      by (simp add: pow2_def)
    finally show ?thesis by simp
  qed
  have "round_to_double (of_int n) = Finite (sgn (of_int n) * ?a)"
    using False small
    unfolding round_to_double_def Let_def e_def [symmetric] q
    by (simp add: ulp)
  then show ?thesis
    by (simp add: sgn_mult_abs)
qed

lemma round_to_double_small:
  "round_to_double 0 = Finite 0"
  "round_to_double 1 = Finite 1"
  "round_to_double 2 = Finite 2"
  "round_to_double 3 = Finite 3"
  "round_to_double 4 = Finite 4"
  "round_to_double (- 2) = Finite (- 2)"
  using round_to_double_int [of 0] round_to_double_int [of 1] round_to_double_int [of 2]
    round_to_double_int [of 3] round_to_double_int [of 4] round_to_double_int [of "- 2"]
  by simp_all

lemma js_rem_4_nonneg: "0 \<le> s \<Longrightarrow> js_rem (of_int s) 4 = of_int (s mod 4)"
proof -
  assume s: "0 \<le> s"
  have "\<lfloor>rat_of_int s / 4\<rfloor> = s div 4"
    using floor_divide_of_int_eq [of s 4, where ?'a = rat] by simp
  moreover have "\<not> rat_of_int s / 4 < 0"
    using s by simp
  ultimately have "js_rem (of_int s) 4 = of_int s - 4 * of_int (s div 4)"
    by (simp add: js_rem_def)
  also have "\<dots> = of_int (s - 4 * (s div 4))"
    by simp
  also have "s - 4 * (s div 4) = s mod 4"
    by (simp add: minus_mult_div_eq_mod)
  finally show ?thesis .
qed

lemma js_rem_4_neg: "s < 0 \<Longrightarrow> js_rem (of_int s) 4 = of_int (- ((- s) mod 4))"
proof -
  assume s: "s < 0"
  have "\<lceil>rat_of_int s / 4\<rceil> = - \<lfloor>rat_of_int (- s) / 4\<rfloor>"
    by (simp add: ceiling_def)
  also have "\<lfloor>rat_of_int (- s) / 4\<rfloor> = (- s) div 4"
    using floor_divide_of_int_eq [of "- s" 4, where ?'a = rat] by simp
  finally have c: "\<lceil>rat_of_int s / 4\<rceil> = - ((- s) div 4)" .
  have "rat_of_int s / 4 < 0"
    using s by simp
  then have "js_rem (of_int s) 4 = of_int s - 4 * of_int (- ((- s) div 4))"
    by (simp add: js_rem_def c)
  also have "\<dots> = of_int (- ((- s) - 4 * ((- s) div 4)))"
    by simp
  also have "(- s) - 4 * ((- s) div 4) = (- s) mod 4"
    by (simp add: minus_mult_div_eq_mod)
  finally show ?thesis .
qed

lemma js_rem_small:
  "js_rem 0 4 = 0" "js_rem 1 4 = 1" "js_rem 2 4 = 2" "js_rem 3 4 = 3" "js_rem 4 4 = 0"
  "js_rem (- 2) 4 = - 2"
  using js_rem_4_nonneg [of 0] js_rem_4_nonneg [of 1] js_rem_4_nonneg [of 2]
    js_rem_4_nonneg [of 3] js_rem_4_nonneg [of 4] js_rem_4_neg [of "- 2"]
  by simp_all

text \<open>The merged \<^verbatim>\<open>rotate\<close> for two integers whose sum is a double.\<close>

lemma mergeAlias_rotate_int:
  assumes "coalesce (rotate' p) 0 = of_int i" and "coalesce (rotate' alias) 0 = of_int j"
    and "\<bar>i + j\<bar> < 2 ^ 53"
  shows "rotate' (mergeAlias p alias)
           = (if js_rem (of_int (i + j)) 4 = 0 then None else Some (js_rem (of_int (i + j)) 4))"
proof -
  have "js_add (of_int i) (of_int j) = Finite (of_int (i + j))"
    using round_to_double_int [OF assms(3)] by (simp add: js_add_def)
  then show ?thesis
    using assms(1,2) by (simp add: mergeAlias_def Let_def)
qed

section \<open>Properties of the resolver\<close>

lemmas demo_defs =
  demo_data_def cycle_data_def shadowed_cycle_data_def inherited_cycle_data_def icon_set_def
  plain_icon_def plain_alias_def

lemmas resolver_defs =
  resolveIconData_def resolve.simps get_property_def object_prototype_keys_def
  no_properties_def mergeAlias_def normalizeIcon_def coalesce_def js_add_def
  round_to_double_small js_rem_small Let_def

text \<open>
  Claim C6, as amended. For every parent icon and alias whose \<^verbatim>\<open>rotate\<close> values, an
  absent one counting as 0, are integers with a sum of magnitude below two to the 53:
  when the sum is not negative, the merged \<^verbatim>\<open>rotate\<close> is the sum modulo 4, and the
  field is removed when that is 0; in every case the field is removed exactly when the
  sum is a multiple of 4; and for a negative sum that is not, \<^verbatim>\<open>%\<close> leaves the negative
  value, the sum modulo 4 less 4.
\<close>

theorem mergeAlias_rotate_mod_4:
  assumes "coalesce (rotate' p) 0 = of_int i" and "coalesce (rotate' alias) 0 = of_int j"
    and "\<bar>i + j\<bar> < 2 ^ 53"
  shows "(0 \<le> i + j \<longrightarrow>
            rotate' (mergeAlias p alias)
              = (if (i + j) mod 4 = 0 then None else Some (of_int ((i + j) mod 4))))
       \<and> (rotate' (mergeAlias p alias) = None \<longleftrightarrow> (i + j) mod 4 = 0)
       \<and> (i + j < 0 \<and> (i + j) mod 4 \<noteq> 0 \<longrightarrow>
            rotate' (mergeAlias p alias) = Some (of_int ((i + j) mod 4 - 4)))"
proof (cases "0 \<le> i + j")
  case True
  have "rotate' (mergeAlias p alias)
          = (if rat_of_int ((i + j) mod 4) = 0 then None else Some (of_int ((i + j) mod 4)))"
    using mergeAlias_rotate_int [OF assms] by (simp only: js_rem_4_nonneg [OF True])
  then show ?thesis
    using True by simp
next
  case False
  then have neg: "i + j < 0" by simp
  have zero: "(- (i + j)) mod 4 = 0 \<longleftrightarrow> (i + j) mod 4 = 0"
    by presburger
  have "(i + j) mod 4 \<noteq> 0 \<Longrightarrow> - ((- (i + j)) mod 4) = (i + j) mod 4 - 4"
    using neg by presburger
  then have shifted: "(i + j) mod 4 \<noteq> 0 \<Longrightarrow>
      rat_of_int (- ((- (i + j)) mod 4)) = of_int ((i + j) mod 4 - 4)"
    by metis
  have "rotate' (mergeAlias p alias)
          = (if rat_of_int (- ((- (i + j)) mod 4)) = 0 then None
             else Some (of_int (- ((- (i + j)) mod 4))))"
    using mergeAlias_rotate_int [OF assms] by (simp only: js_rem_4_neg [OF neg])
  then have "rotate' (mergeAlias p alias)
          = (if (i + j) mod 4 = 0 then None else Some (of_int ((i + j) mod 4 - 4)))"
    using zero shifted by (cases "(i + j) mod 4 = 0") (simp_all del: of_int_minus of_int_diff)
  then show ?thesis
    using neg by simp
qed

theorem mergeAlias_rotate_mod_4_witness:
  "rotate' (mergeAlias ((plain_icon ''<path/>'')\<lparr>rotate' := Some 1\<rparr>)
                       ((plain_alias ''turned'')\<lparr>rotate' := Some 2\<rparr>)) = Some 3
   \<and> rotate' (mergeAlias ((plain_icon ''<path/>'')\<lparr>rotate' := Some 2\<rparr>)
                         ((plain_alias ''turned'')\<lparr>rotate' := Some 2\<rparr>)) = None"
  using mergeAlias_rotate_mod_4
          [of "(plain_icon ''<path/>'')\<lparr>rotate' := Some 1\<rparr>" 1
              "(plain_alias ''turned'')\<lparr>rotate' := Some 2\<rparr>" 2]
        mergeAlias_rotate_mod_4
          [of "(plain_icon ''<path/>'')\<lparr>rotate' := Some 2\<rparr>" 2
              "(plain_alias ''turned'')\<lparr>rotate' := Some 2\<rparr>" 2]
  by (simp add: plain_icon_def plain_alias_def coalesce_def)

text \<open>
  Outside these bounds the merged \<^verbatim>\<open>rotate\<close> is not the sum modulo 4. A parent turned
  three times back and an alias that turns once give -2, where the sum modulo 4 is 2.
  A parent turned once and an alias that turns two to the 53 times give no \<^verbatim>\<open>rotate\<close>,
  since the sum is rounded to two to the 53, where the sum modulo 4 is 1.
\<close>

theorem mergeAlias_rotate_counterexample:
  "rotate' (mergeAlias ((plain_icon ''<path/>'')\<lparr>rotate' := Some (- 3)\<rparr>)
                       ((plain_alias ''back'')\<lparr>rotate' := Some 1\<rparr>)) = Some (- 2)
   \<and> (- 3 + 1) mod (4::int) = 2
   \<and> rotate' (mergeAlias ((plain_icon ''<path/>'')\<lparr>rotate' := Some 1\<rparr>)
                         ((plain_alias ''turned'')\<lparr>rotate' := Some 9007199254740992\<rparr>)) = None
   \<and> (1 + 9007199254740992) mod (4::int) = 1"
proof -
  have big: "round_to_double 9007199254740993 = Finite 9007199254740992"
    by code_simp
  have rem: "js_rem 9007199254740992 4 = 0"
    using js_rem_4_nonneg [of 9007199254740992] by simp
  show ?thesis
    by (simp add: mergeAlias_def plain_icon_def plain_alias_def coalesce_def js_add_def
        round_to_double_small js_rem_small big rem)
qed

lemma mergeAlias_flip_explicit:
  "hFlip p = Some a \<Longrightarrow> hFlip alias = Some b \<Longrightarrow>
     hFlip (mergeAlias p alias) = (if a \<noteq> b then Some True else None)"
  "vFlip p = Some a \<Longrightarrow> vFlip alias = Some b \<Longrightarrow>
     vFlip (mergeAlias p alias) = (if a \<noteq> b then Some True else None)"
  by (simp_all add: mergeAlias_def Let_def)

text \<open>
  Claim C5. The merged \<^verbatim>\<open>hFlip\<close> is to be the exclusive or of the parent's flag and
  the alias's flag, an absent flag counting as false. For a parent without \<^verbatim>\<open>hFlip\<close>
  and an alias with \<^verbatim>\<open>hFlip: false\<close> the two flags agree, yet \<^verbatim>\<open>mergeAlias\<close> sets
  \<^verbatim>\<open>hFlip\<close> to true, and so does the resolution of such an alias.
\<close>

theorem mergeAlias_hFlip_absent_false:
  "hFlip (mergeAlias (plain_icon ''<path/>'') ((plain_alias ''a'')\<lparr>hFlip := Some False\<rparr>))
     = Some True
   \<and> map_option hFlip (resolveIconData demo_data ''same'') = Some (Some True)"
  by (simp add: demo_defs resolver_defs)

lemma alias_chain_next:
  "alias_chain data (xs @ [y]) \<Longrightarrow> k \<in> set xs \<Longrightarrow>
     \<exists>k'\<in>set (xs @ [y]). alias_parent data k = Some k'"
proof (induction xs)
  case Nil
  then show ?case by simp
next
  case (Cons x xs)
  then show ?case
    by (cases xs) auto
qed

lemma no_icon_set:
  "no_icon data ks \<Longrightarrow> k \<in> set ks \<Longrightarrow> get_property (icons data) k = Missing"
  by (induction ks) auto

lemma resolve_closed:
  "(\<forall>k\<in>S. get_property (icons data) k = Missing
          \<and> (\<exists>k'\<in>S. alias_parent data k = Some k')) \<Longrightarrow>
   k \<in> S \<Longrightarrow> fst (resolve data visited k) = None"
proof (induction data visited k rule: resolve.induct)
  case (1 data visited key)
  show ?case
  proof (cases "key \<in> set visited")
    case True
    then show ?thesis by (simp add: resolve.simps [of data visited key])
  next
    case False
    from "1.prems" obtain k' where k': "k' \<in> S" "alias_parent data key = Some k'"
      and noicon: "get_property (icons data) key = Missing" by blast
    from k'(2) obtain al where al: "map_of (aliases data) key = Some al" "parent al = k'"
      by (auto simp add: alias_parent_def)
    have "fst (resolve data (visited @ [key]) (parent al)) = None"
      using "1.IH" [OF False noicon al(1)] "1.prems"(1) k'(1) al(2) by simp
    then show ?thesis
      using False noicon al(1)
      by (auto simp add: resolve.simps [of data visited key] split: prod.splits option.splits)
  qed
qed

lemma resolve_visited:
  "distinct visited \<Longrightarrow> distinct (snd (resolve data visited k))"
proof (induction data visited k rule: resolve.induct)
  case (1 data visited key)
  show ?case
  proof (cases "key \<in> set visited")
    case True
    then show ?thesis using "1.prems" by (simp add: resolve.simps [of data visited key])
  next
    case False
    note fresh = this
    show ?thesis
    proof (cases "get_property (icons data) key")
      case (Own icon)
      then show ?thesis
        using fresh "1.prems" by (simp add: resolve.simps [of data visited key])
    next
      case Inherited
      then show ?thesis
        using fresh "1.prems" by (simp add: resolve.simps [of data visited key])
    next
      case Missing
      note noicon = this
      show ?thesis
      proof (cases "map_of (aliases data) key")
        case None
        then show ?thesis
          using fresh noicon "1.prems" by (simp add: resolve.simps [of data visited key])
      next
        case (Some al)
        have "distinct (visited @ [key])"
          using fresh "1.prems" by simp
        then have "distinct (snd (resolve data (visited @ [key]) (parent al)))"
          using "1.IH" [OF fresh noicon Some] by simp
        then show ?thesis
          using fresh noicon Some
          by (auto simp add: resolve.simps [of data visited key] split: prod.splits option.splits)
      qed
    qed
  qed
qed

text \<open>
  Claim C2, as amended. \<^verbatim>\<open>resolve\<close> is a total function: its recursion ends, since
  every call that goes on adds a name of \<^verbatim>\<open>aliases\<close> to \<^verbatim>\<open>visited\<close>. For every icon
  set with a cycle of aliases none of whose names is found in \<^verbatim>\<open>icons\<close>, as a property
  of its own or as a name inherited from \<^verbatim>\<open>Object.prototype\<close>, \<^verbatim>\<open>resolveIconData\<close>
  returns not-found for every name on the cycle; and for every icon set and every
  name, no name is visited twice.
\<close>

theorem alias_cycle_not_found:
  "(alias_cycle data ks \<and> no_icon data ks \<and> k \<in> set ks \<longrightarrow> resolveIconData data k = None)
   \<and> distinct (snd (resolve data [] name))"
proof -
  have "resolveIconData data k = None"
    if cycle: "alias_cycle data ks" and icons: "no_icon data ks" and k: "k \<in> set ks"
  proof -
    have closed: "\<forall>k\<in>set ks. get_property (icons data) k = Missing
                    \<and> (\<exists>k'\<in>set ks. alias_parent data k = Some k')"
    proof
      fix x assume x: "x \<in> set ks"
      from cycle have ne: "ks \<noteq> []" and chain: "alias_chain data (ks @ [hd ks])"
        by (simp_all add: alias_cycle_def)
      from alias_chain_next [OF chain x] ne
      have "\<exists>k'\<in>set ks. alias_parent data x = Some k'" by auto
      then show "get_property (icons data) x = Missing
                 \<and> (\<exists>k'\<in>set ks. alias_parent data x = Some k')"
        using no_icon_set [OF icons x] by simp
    qed
    show ?thesis
      unfolding resolveIconData_def using resolve_closed [OF closed k] .
  qed
  moreover have "distinct (snd (resolve data [] name))"
    by (rule resolve_visited) simp
  ultimately show ?thesis by blast
qed

theorem alias_cycle_not_found_witness:
  "alias_cycle cycle_data [''A'', ''B''] \<and> no_icon cycle_data [''A'', ''B'']
   \<and> resolveIconData cycle_data ''A'' = None \<and> resolveIconData cycle_data ''B'' = None
   \<and> distinct (snd (resolve cycle_data [] ''A''))"
proof -
  have c: "alias_cycle cycle_data [''A'', ''B'']"
    by (simp add: alias_cycle_def alias_parent_def demo_defs)
  have n: "no_icon cycle_data [''A'', ''B'']"
    by (simp add: demo_defs get_property_def object_prototype_keys_def)
  show ?thesis
    using c n alias_cycle_not_found [of cycle_data "[''A'', ''B'']" "''A''" "''A''"]
          alias_cycle_not_found [of cycle_data "[''A'', ''B'']" "''B''" "''A''"]
    by simp
qed

text \<open>
  Without the condition on icons the statement fails: \<^verbatim>\<open>resolve\<close> looks a name up in
  \<^verbatim>\<open>icons\<close> before \<^verbatim>\<open>aliases\<close>. When \<^verbatim>\<open>A\<close> is an icon as well, both names of the cycle
  \<^verbatim>\<open>A\<close>, \<^verbatim>\<open>B\<close> resolve to that icon; and on the cycle \<^verbatim>\<open>constructor\<close>, \<^verbatim>\<open>B\<close> both names
  resolve to the copy of the member that \<^verbatim>\<open>icons\<close> inherits under \<^verbatim>\<open>constructor\<close>.
\<close>

theorem alias_cycle_shadowed_counterexample:
  "alias_cycle shadowed_cycle_data [''A'', ''B'']
   \<and> resolveIconData shadowed_cycle_data ''A''
       = Some \<lparr> left = Some 0, top' = Some 0, width = Some 16, height = Some 16,
                rotate' = None, hFlip = None, vFlip = None, body = Some ''<path/>'' \<rparr>
   \<and> resolveIconData shadowed_cycle_data ''B''
       = Some \<lparr> left = Some 0, top' = Some 0, width = Some 16, height = Some 16,
                rotate' = None, hFlip = None, vFlip = None, body = Some ''<path/>'' \<rparr>
   \<and> alias_cycle inherited_cycle_data [''constructor'', ''B'']
   \<and> resolveIconData inherited_cycle_data ''constructor''
       = Some \<lparr> left = Some 0, top' = Some 0, width = Some 16, height = Some 16,
                rotate' = None, hFlip = None, vFlip = None, body = None \<rparr>
   \<and> resolveIconData inherited_cycle_data ''B''
       = Some \<lparr> left = Some 0, top' = Some 0, width = Some 16, height = Some 16,
                rotate' = None, hFlip = None, vFlip = None, body = None \<rparr>"
  by (simp add: alias_cycle_def alias_parent_def demo_defs resolver_defs)

lemma makeIconInfo_ratio:
  "ratio (makeIconInfo iconData data coll icon actualKey) =
     or_else (js_div (coalesce (width iconData) (coalesce (width data) 16))
                     (coalesce (height iconData) (coalesce (height data) 16))) (Finite 1)"
  by (simp add: makeIconInfo_def Let_def iconify_icon.defs icon_info.defs)

lemma makeIconInfo_width:
  "width (makeIconInfo iconData data coll icon actualKey) =
     Some (coalesce (width iconData) (coalesce (width data) 16))"
  by (simp add: makeIconInfo_def Let_def iconify_icon.defs icon_info.defs)

lemma makeIconInfo_height:
  "height (makeIconInfo iconData data coll icon actualKey) =
     Some (coalesce (height iconData) (coalesce (height data) 16))"
  by (simp add: makeIconInfo_def Let_def iconify_icon.defs icon_info.defs)

lemma makeIconInfo_ids:
  "key (makeIconInfo iconData data coll icon actualKey) = actualKey
   \<and> collection (makeIconInfo iconData data coll icon actualKey) = coll
   \<and> id' (makeIconInfo iconData data coll icon actualKey) = icon"
  by (simp add: makeIconInfo_def Let_def iconify_icon.defs icon_info.defs)

lemmas load_defs =
  LoadIconSet_def UniqPromise_def loadIconSetTask_def migrateCache_def migrateEntry_def
  startsWith_def loadCache_def writeCache_def fs_writeFile_def

lemmas demo_world_defs = demo_env_def demo_state_def split_colon_def

lemma getIconInfo_result:
  assumes "fst (getIconInfo e k allowAliases s) = Inr (Value info)"
  shows "\<exists>iconData data coll icon actualKey.
           info = makeIconInfo iconData data coll icon actualKey"
  using assms
  by (auto simp add: getIconInfo_def Let_def
      split: if_splits option.splits prod.splits sum.splits) blast+

text \<open>
  Claim C9, as amended. For every icon info that \<^verbatim>\<open>getIconInfo\<close> returns with a final
  height that is not 0, \<^verbatim>\<open>ratio\<close> is the quotient of the final width by the final height
  as the double division computes it, unless that computed quotient is 0, and then it
  is 1. So it is the exact quotient whenever that is a double and not 0, and it is 1
  whenever the final width is 0, also for 0 / 0.
\<close>

theorem ratio_of_resolved_icon:
  assumes "fst (getIconInfo e k allowAliases s) = Inr (Value info)"
  shows "\<exists>w h. width info = Some w \<and> height info = Some h
           \<and> (h \<noteq> 0 \<longrightarrow>
                ratio info = (if js_div w h = Finite 0 then Finite 1 else js_div w h))
           \<and> (w \<noteq> 0 \<and> h \<noteq> 0 \<and> js_div w h = Finite (w / h) \<longrightarrow> ratio info = Finite (w / h))
           \<and> (w = 0 \<longrightarrow> ratio info = Finite 1)"
proof -
  from getIconInfo_result [OF assms] obtain iconData data coll icon actualKey
    where info: "info = makeIconInfo iconData data coll icon actualKey" by blast
  define w where "w = coalesce (width iconData) (coalesce (width data) 16)"
  define h where "h = coalesce (height iconData) (coalesce (height data) 16)"
  have wh: "width info = Some w" "height info = Some h"
    and r: "ratio info = or_else (js_div w h) (Finite 1)"
    unfolding info w_def h_def
    by (simp_all add: makeIconInfo_ratio makeIconInfo_width makeIconInfo_height)
  have nan: "js_div w h \<noteq> NaN" if "h \<noteq> 0"
    using that
    by (simp add: js_div_def round_to_double_def Let_def)
  have general: "ratio info = (if js_div w h = Finite 0 then Finite 1 else js_div w h)"
    if "h \<noteq> 0"
    using nan [OF that] by (simp add: r or_else_def truthy_def)
  have exact: "ratio info = Finite (w / h)"
    if "w \<noteq> 0" "h \<noteq> 0" "js_div w h = Finite (w / h)"
    using that general by simp
  have zero: "ratio info = Finite 1" if "w = 0"
    using that by (simp add: r or_else_def truthy_def js_div_def round_to_double_small)
  show ?thesis
    using wh general exact zero by blast
qed

lemma demo_wide:
  "fst (getIconInfo demo_env ''demo:wide'' True demo_state) =
     Inr (Value \<lparr> left = Some 0, top' = Some 0, width = Some 20, height = Some 10,
                  rotate' = None, hFlip = None, vFlip = None, body = Some ''<path/>'',
                  key = ''demo:wide'', ratio = Finite 2, collection = ''demo'',
                  id' = ''wide'' \<rparr>)"
  by (simp add: getIconInfo_def load_defs demo_world_defs demo_defs resolver_defs
      makeIconInfo_def js_div_def round_to_double_small or_else_def truthy_def iconify_icon.defs icon_info.defs)


lemma demo_flat:
  "fst (getIconInfo demo_env ''demo:flat'' True demo_state) =
     Inr (Value \<lparr> left = Some 0, top' = Some 0, width = Some 0, height = Some 16,
                  rotate' = None, hFlip = None, vFlip = None, body = Some ''<path/>'',
                  key = ''demo:flat'', ratio = Finite 1, collection = ''demo'',
                  id' = ''flat'' \<rparr>)"
  by (simp add: getIconInfo_def load_defs demo_world_defs demo_defs resolver_defs
      makeIconInfo_def js_div_def round_to_double_small or_else_def truthy_def iconify_icon.defs icon_info.defs)

theorem ratio_of_resolved_icon_witness:
  "fst (getIconInfo demo_env ''demo:wide'' True demo_state) =
     Inr (Value \<lparr> left = Some 0, top' = Some 0, width = Some 20, height = Some 10,
                  rotate' = None, hFlip = None, vFlip = None, body = Some ''<path/>'',
                  key = ''demo:wide'', ratio = Finite 2, collection = ''demo'',
                  id' = ''wide'' \<rparr>)
   \<and> ratio \<lparr> left = Some 0, top' = Some 0, width = Some 20, height = Some 10,
              rotate' = None, hFlip = None, vFlip = None, body = Some ''<path/>'',
              key = ''demo:wide'', ratio = Finite 2, collection = ''demo'',
              id' = ''wide'' \<rparr> = Finite (20 / 10)"
  using ratio_of_resolved_icon [OF demo_wide] demo_wide
  by simp

text \<open>
  A quotient of 0 is not returned: for an icon of width 0 and height 16 the division
  gives 0, and \<^verbatim>\<open>(width / height) || 1\<close> reports 1.
\<close>

theorem ratio_zero_quotient_counterexample:
  "fst (getIconInfo demo_env ''demo:flat'' True demo_state) =
     Inr (Value \<lparr> left = Some 0, top' = Some 0, width = Some 0, height = Some 16,
                  rotate' = None, hFlip = None, vFlip = None, body = Some ''<path/>'',
                  key = ''demo:flat'', ratio = Finite 1, collection = ''demo'',
                  id' = ''flat'' \<rparr>)
   \<and> js_div 0 16 = Finite 0 \<and> Finite 1 \<noteq> Finite 0"
  using demo_flat by (simp add: js_div_def round_to_double_small)

text \<open>
  Claim C8. For every icon without \<^verbatim>\<open>width\<close> and \<^verbatim>\<open>height\<close> in an icon set without
  \<^verbatim>\<open>width\<close> and \<^verbatim>\<open>height\<close>, resolution gives width 16 and height 16, and
  \<^verbatim>\<open>getIconInfo\<close>, for a key that names this icon in its loaded icon set, returns an
  icon info with width 16, height 16 and ratio 1.
\<close>

theorem default_geometry:
  assumes "map_of (icons data) name = Some icon"
    and "width icon = None" and "height icon = None"
    and "width data = None" and "height data = None"
    and "\<not> (allowAliases \<and> customAliasesOnly e
              \<and> (enabledAliases e k = None \<or> enabledAliases e k = Some []))"
    and "parseIcon e (coalesce (if allowAliases then enabledAliases e k else None) k)
           = Some (coll, name)"
    and "LoadIconSet e coll s = (Inr (Some data), s')"
  shows "\<exists>r info. resolveIconData data name = Some r
           \<and> width r = Some 16 \<and> height r = Some 16
           \<and> getIconInfo e k allowAliases s = (Inr (Value info), s')
           \<and> width info = Some 16 \<and> height info = Some 16 \<and> ratio info = Finite 1"
proof -
  let ?r = "normalizeIcon icon data"
  let ?actualKey = "coalesce (if allowAliases then enabledAliases e k else None) k"
  have r: "resolveIconData data name = Some ?r"
    using assms(1) by (simp add: resolveIconData_def resolve.simps get_property_def)
  have wh: "width ?r = Some 16" "height ?r = Some 16"
    using assms(2-5) by (simp_all add: normalizeIcon_def coalesce_def)
  have g: "getIconInfo e k allowAliases s
             = (Inr (Value (makeIconInfo ?r data coll name ?actualKey)), s')"
    using assms(6-8) r by (auto simp add: getIconInfo_def Let_def)
  have "ratio (makeIconInfo ?r data coll name ?actualKey) = Finite 1"
    using wh by (simp add: makeIconInfo_ratio coalesce_def js_div_def round_to_double_small or_else_def truthy_def)
  moreover have "width (makeIconInfo ?r data coll name ?actualKey) = Some 16"
    and "height (makeIconInfo ?r data coll name ?actualKey) = Some 16"
    using wh by (simp_all add: makeIconInfo_width makeIconInfo_height coalesce_def)
  ultimately show ?thesis
    using r wh g by blast
qed

lemma demo_load:
  "LoadIconSet demo_env ''demo'' demo_state
     = (Inr (Some demo_data), demo_state\<lparr>tasks := [''demo'' \<mapsto> Inr (Some demo_data)]\<rparr>)"
  by (simp add: load_defs demo_world_defs)

theorem default_geometry_witness:
  "map_of (icons demo_data) ''a'' = Some (plain_icon ''<path/>'')
   \<and> width (plain_icon ''<path/>'') = None \<and> height (plain_icon ''<path/>'') = None
   \<and> width demo_data = None \<and> height demo_data = None
   \<and> parseIcon demo_env ''demo:a'' = Some (''demo'', ''a'')
   \<and> fst (getIconInfo demo_env ''demo:a'' True demo_state) =
       Inr (Value \<lparr> left = Some 0, top' = Some 0, width = Some 16, height = Some 16,
                    rotate' = None, hFlip = None, vFlip = None, body = Some ''<path/>'',
                    key = ''demo:a'', ratio = Finite 1, collection = ''demo'',
                    id' = ''a'' \<rparr>)"
proof -
  have i: "map_of (icons demo_data) ''a'' = Some (plain_icon ''<path/>'')"
    by (simp add: demo_defs)
  have w: "width (plain_icon ''<path/>'') = None" "height (plain_icon ''<path/>'') = None"
    "width demo_data = None" "height demo_data = None"
    by (simp_all add: demo_defs)
  have pol: "\<not> (True \<and> customAliasesOnly demo_env
                \<and> (enabledAliases demo_env ''demo:a'' = None
                     \<or> enabledAliases demo_env ''demo:a'' = Some []))"
    by (simp add: demo_env_def)
  have p: "parseIcon demo_env
             (coalesce (if True then enabledAliases demo_env ''demo:a'' else None) ''demo:a'')
           = Some (''demo'', ''a'')"
    by (simp add: demo_world_defs coalesce_def)
  from default_geometry [OF i w pol p demo_load]
  obtain info where "fst (getIconInfo demo_env ''demo:a'' True demo_state) = Inr (Value info)"
    and "ratio info = Finite 1" by auto
  moreover have "fst (getIconInfo demo_env ''demo:a'' True demo_state) =
       Inr (Value \<lparr> left = Some 0, top' = Some 0, width = Some 16, height = Some 16,
                    rotate' = None, hFlip = None, vFlip = None, body = Some ''<path/>'',
                    key = ''demo:a'', ratio = Finite 1, collection = ''demo'',
                    id' = ''a'' \<rparr>)"
    by (simp add: getIconInfo_def load_defs demo_world_defs demo_defs resolver_defs
      makeIconInfo_def js_div_def round_to_double_small or_else_def truthy_def iconify_icon.defs icon_info.defs)
  ultimately show ?thesis
    using i w p by (simp add: coalesce_def demo_env_def)
qed

text \<open>
  Claim C1, as amended. For every key whose collection fails to load, \<^verbatim>\<open>getIconInfo\<close>
  returns \<^verbatim>\<open>null\<close>; it returns the same \<^verbatim>\<open>null\<close> when the collection loads and the
  local name does not resolve. Both differ from the \<^verbatim>\<open>undefined\<close> it returns for a key
  that cannot be parsed.
\<close>

theorem unavailable_and_not_found:
  assumes "\<not> (allowAliases \<and> customAliasesOnly e
              \<and> (enabledAliases e k = None \<or> enabledAliases e k = Some []))"
  shows "(parseIcon e (coalesce (if allowAliases then enabledAliases e k else None) k)
            = Some (coll, icon)
          \<and> fst (LoadIconSet e coll s) = Inr None
          \<longrightarrow> fst (getIconInfo e k allowAliases s) = Inr Null)
       \<and> (parseIcon e (coalesce (if allowAliases then enabledAliases e k else None) k)
            = Some (coll, icon)
          \<and> fst (LoadIconSet e coll s) = Inr (Some data) \<and> resolveIconData data icon = None
          \<longrightarrow> fst (getIconInfo e k allowAliases s) = Inr Null)
       \<and> (parseIcon e (coalesce (if allowAliases then enabledAliases e k else None) k) = None
          \<longrightarrow> fst (getIconInfo e k allowAliases s) = Inr Undefined)
       \<and> (Inr Null :: exn + icon_info js_value) \<noteq> Inr Undefined"
  using assms
  by (auto simp add: getIconInfo_def Let_def split: prod.splits sum.splits option.splits)

text \<open>
  The two outcomes are not distinct values: a collection that cannot be fetched and a
  name missing from a loaded collection both give \<^verbatim>\<open>null\<close>.
\<close>

theorem unavailable_equals_not_found_counterexample:
  "fst (LoadIconSet demo_env ''missing'' demo_state) = Inr None
   \<and> fst (getIconInfo demo_env ''missing:a'' True demo_state) = Inr Null
   \<and> fst (LoadIconSet demo_env ''demo'' demo_state) = Inr (Some demo_data)
   \<and> resolveIconData demo_data ''nope'' = None
   \<and> fst (getIconInfo demo_env ''demo:nope'' True demo_state) = Inr Null
   \<and> fst (getIconInfo demo_env ''missing:a'' True demo_state)
       = fst (getIconInfo demo_env ''demo:nope'' True demo_state)"
  by (simp add: getIconInfo_def load_defs demo_world_defs demo_defs resolver_defs)

theorem unavailable_and_not_found_witness:
  "fst (getIconInfo demo_env ''missing:a'' True demo_state) = Inr Null
   \<and> fst (getIconInfo demo_env ''demo:nope'' True demo_state) = Inr Null
   \<and> fst (getIconInfo demo_env ''nocolon'' True demo_state) = Inr Undefined"
proof -
  have pol: "\<not> (True \<and> customAliasesOnly demo_env
             \<and> (enabledAliases demo_env k = None \<or> enabledAliases demo_env k = Some []))" for k
    by (simp add: demo_env_def)
  have l1: "fst (LoadIconSet demo_env ''missing'' demo_state) = Inr None"
    by (simp add: load_defs demo_world_defs)
  have l2: "fst (LoadIconSet demo_env ''demo'' demo_state) = Inr (Some demo_data)"
    by (simp add: load_defs demo_world_defs)
  have r: "resolveIconData demo_data ''nope'' = None"
    by (simp add: demo_defs resolver_defs)
  have p: "parseIcon demo_env ''missing:a'' = Some (''missing'', ''a'')"
    "parseIcon demo_env ''demo:nope'' = Some (''demo'', ''nope'')"
    "parseIcon demo_env ''nocolon'' = None"
    "enabledAliases demo_env k = None" for k
    by (simp_all add: demo_world_defs)
  show ?thesis
    using unavailable_and_not_found
            [OF pol, of "''missing:a''" "''missing''" "''a''" demo_state demo_data]
          unavailable_and_not_found
            [OF pol, of "''demo:nope''" "''demo''" "''nope''" demo_state demo_data]
          unavailable_and_not_found
            [OF pol, of "''nocolon''" "''demo''" "''nope''" demo_state demo_data]
          l1 l2 r p
    by (simp add: coalesce_def)
qed

section \<open>Properties of the caches\<close>

lemma writeCache_fields:
  "tasks (writeCache i d s) = tasks s"
  "dataURLCache (writeCache i d s) = dataURLCache s"
  "loadedIconSets (writeCache i d s) = loadedIconSets s"
  "fsWritable (writeCache i d s) = fsWritable s"
  "network (writeCache i d s) = network s"
  "globalState (writeCache i d s) = globalState s"
  by (simp_all add: writeCache_def fs_writeFile_def)

lemma migrateEntry_fields:
  "tasks (migrateEntry k s) = tasks s"
  "dataURLCache (migrateEntry k s) = dataURLCache s"
  "fsWritable (migrateEntry k s) = fsWritable s"
  "network (migrateEntry k s) = network s"
  by (simp_all add: migrateEntry_def Let_def writeCache_fields split: option.splits)

lemma migrateKeys_fields:
  "tasks (migrateKeys ks s) = tasks s \<and> dataURLCache (migrateKeys ks s) = dataURLCache s
   \<and> fsWritable (migrateKeys ks s) = fsWritable s \<and> network (migrateKeys ks s) = network s"
  by (induction ks arbitrary: s) (simp_all add: migrateEntry_fields)

lemma migrateCache_fields:
  "tasks (migrateCache s) = tasks s"
  "dataURLCache (migrateCache s) = dataURLCache s"
  "fsWritable (migrateCache s) = fsWritable s"
  "network (migrateCache s) = network s"
  by (simp_all add: migrateCache_def migrateKeys_fields)

lemma loadIconSetTask_fields:
  "tasks (snd (loadIconSetTask e i s)) = tasks s"
  "dataURLCache (snd (loadIconSetTask e i s)) = dataURLCache s"
  by (simp_all add: loadIconSetTask_def Let_def migrateCache_fields writeCache_fields
      split: option.splits)

lemma loadIconSetTask_resolves: "\<exists>v. fst (loadIconSetTask e i s) = Inr v"
  by (simp add: loadIconSetTask_def Let_def split: option.splits)

lemma LoadIconSet_dataURLCache: "dataURLCache (snd (LoadIconSet e i s)) = dataURLCache s"
proof (cases "tasks s i")
  case None
  obtain r s' where t: "loadIconSetTask e i s = (r, s')"
    by (cases "loadIconSetTask e i s")
  then have "dataURLCache s' = dataURLCache s"
    using loadIconSetTask_fields(2) [of e i s] by simp
  then show ?thesis
    using None t by (simp add: LoadIconSet_def UniqPromise_def)
next
  case (Some r)
  then show ?thesis by (simp add: LoadIconSet_def UniqPromise_def)
qed

lemma LoadIconSet_keeps_task:
  assumes "tasks s i = Some r"
  shows "tasks (snd (LoadIconSet e j s)) i = Some r"
proof (cases "tasks s j")
  case None
  obtain r' s' where t: "loadIconSetTask e j s = (r', s')"
    by (cases "loadIconSetTask e j s")
  then have "tasks s' = tasks s"
    using loadIconSetTask_fields(1) [of e j s] by simp
  moreover have "i \<noteq> j"
    using assms None by auto
  ultimately show ?thesis
    using None t assms by (simp add: LoadIconSet_def UniqPromise_def)
next
  case (Some r')
  then show ?thesis using assms by (simp add: LoadIconSet_def UniqPromise_def)
qed

lemma getIconInfo_state:
  "snd (getIconInfo e k allowAliases s) = s
   \<or> (\<exists>coll. snd (getIconInfo e k allowAliases s) = snd (LoadIconSet e coll s))"
proof -
  let ?al = "if allowAliases then enabledAliases e k else None"
  show ?thesis
  proof (cases "allowAliases \<and> customAliasesOnly e \<and> (?al = None \<or> ?al = Some [])")
    case True
    then have "snd (getIconInfo e k allowAliases s) = s"
      by (auto simp add: getIconInfo_def Let_def)
    then show ?thesis by simp
  next
    case False
    note policy = this
    show ?thesis
    proof (cases "parseIcon e (coalesce ?al k)")
      case None
      then have "snd (getIconInfo e k allowAliases s) = s"
        using policy by (simp add: getIconInfo_def Let_def)
      then show ?thesis by simp
    next
      case (Some parsed)
      obtain coll icon where parsed: "parsed = (coll, icon)" by (cases parsed)
      obtain r s' where l: "LoadIconSet e coll s = (r, s')" by (cases "LoadIconSet e coll s")
      have "snd (getIconInfo e k allowAliases s) = s'"
        using policy Some parsed l
        by (auto simp add: getIconInfo_def Let_def split: sum.splits option.splits)
      then have "snd (getIconInfo e k allowAliases s) = snd (LoadIconSet e coll s)"
        using l by simp
      then show ?thesis by blast
    qed
  qed
qed

lemma getIconInfo_dataURLCache:
  "dataURLCache (snd (getIconInfo e k allowAliases s)) = dataURLCache s"
  using getIconInfo_state [of e k allowAliases s] by (auto simp add: LoadIconSet_dataURLCache)

lemma getIconInfo_keeps_task:
  "tasks s i = Some r \<Longrightarrow> tasks (snd (getIconInfo e k allowAliases s)) i = Some r"
  using getIconInfo_state [of e k allowAliases s] by (auto simp add: LoadIconSet_keeps_task)

lemma render_fields:
  "tasks (snd (render e ck info f s)) = tasks s"
  "dataURLCache (snd (render e ck info f s))
     = (dataURLCache s)(ck \<mapsto> toDataUrl e (replaceAll ''currentColor'' (color e) (pathToSvg e info f)))"
  "fst (render e ck info f s)
     = Inr (toDataUrl e (replaceAll ''currentColor'' (color e) (pathToSvg e info f)))"
  by (simp_all add: render_def Let_def)

lemma toDataUrl_nonempty: "toDataUrl e str \<noteq> []"
  by (simp add: toDataUrl_def)

text \<open>The state \<^verbatim>\<open>getDataURL\<close> leaves, by the branch it takes.\<close>

lemma getDataURL_state:
  "snd (getDataURL e keyOrInfo f s) = s
   \<or> (\<exists>k. snd (getDataURL e keyOrInfo f s) = snd (getIconInfo e k True s))
   \<or> (\<exists>ck info n. snd (getDataURL e keyOrInfo f s) = snd (render e ck info n s))
   \<or> (\<exists>ck info n k. snd (getDataURL e keyOrInfo f s)
         = snd (render e ck info n (snd (getIconInfo e k True s))))"
proof -
  let ?k = "case keyOrInfo of Key str \<Rightarrow> str | Info i \<Rightarrow> key i"
  let ?ck = "color e @ string_of_nat (coalesce f 32) @ ?k"
  let ?miss = "case keyOrInfo of
                 Info i \<Rightarrow> render e ?ck i (coalesce f 32) s
               | Key str \<Rightarrow>
                  (case getIconInfo e ?k True s of
                     (Inl err, s') \<Rightarrow> (Inl err, s')
                   | (Inr (Value i), s') \<Rightarrow> render e ?ck i (coalesce f 32) s'
                   | (Inr _, s') \<Rightarrow> (Inr [], s'))"
  have unfold: "getDataURL e keyOrInfo f s =
      (case dataURLCache s ?ck of Some (c # cs) \<Rightarrow> (Inr (c # cs), s) | _ \<Rightarrow> ?miss)"
    unfolding getDataURL_def Let_def ..
  have miss: "snd ?miss = snd (getIconInfo e ?k True s)
      \<or> (\<exists>info. snd ?miss = snd (render e ?ck info (coalesce f 32) s))
      \<or> (\<exists>info. snd ?miss = snd (render e ?ck info (coalesce f 32) (snd (getIconInfo e ?k True s))))"
  proof (cases keyOrInfo)
    case (Info i)
    then show ?thesis by auto
  next
    case (Key str)
    obtain r s' where g: "getIconInfo e str True s = (r, s')"
      by (cases "getIconInfo e str True s")
    show ?thesis
    proof (cases r)
      case (Inl err)
      then show ?thesis using Key g by simp
    next
      case (Inr v)
      then show ?thesis using Key g by (cases v) auto
    qed
  qed
  show ?thesis
  proof (cases "dataURLCache s ?ck")
    case None
    then have eq: "getDataURL e keyOrInfo f s = ?miss"
      unfolding unfold by simp
    show ?thesis unfolding eq using miss by blast
  next
    case (Some url)
    show ?thesis
    proof (cases url)
      case Nil
      then have eq: "getDataURL e keyOrInfo f s = ?miss"
        unfolding unfold using Some by simp
      show ?thesis unfolding eq using miss by blast
    next
      case (Cons c cs)
      then have "getDataURL e keyOrInfo f s = (Inr (c # cs), s)"
        unfolding unfold using Some by simp
      then show ?thesis by simp
    qed
  qed
qed

lemma getDataURL_keeps_task:
  assumes "tasks s i = Some r"
  shows "tasks (snd (getDataURL e keyOrInfo f s)) i = Some r"
  using getDataURL_state [of e keyOrInfo f s] assms
  by (auto simp add: render_fields getIconInfo_keeps_task)

lemma clearLegacy_fields:
  "tasks (clearLegacy ks s) = tasks s \<and> dataURLCache (clearLegacy ks s) = dataURLCache s
   \<and> loadedIconSets (clearLegacy ks s) = loadedIconSets s"
  by (induction ks arbitrary: s) simp_all

lemma clearCache_tasks: "tasks (snd (clearCache s)) = Map.empty"
  by (auto simp add: clearCache_def Let_def fs_delete_def clearLegacy_fields
      split: sum.splits option.splits if_splits)

lemma exec_keeps_task:
  "tasks s i = Some r \<Longrightarrow> c \<noteq> CallDeleteTask i \<Longrightarrow> c \<noteq> CallClearCache \<Longrightarrow>
     tasks (exec e c s) i = Some r"
  by (cases c)
     (auto simp add: LoadIconSet_keeps_task getIconInfo_keeps_task getDataURL_keeps_task
        deleteTask_def)

lemma run_keeps_task:
  "tasks s i = Some r \<Longrightarrow>
   \<forall>ec\<in>set cs. snd ec \<noteq> CallDeleteTask i \<and> snd ec \<noteq> CallClearCache \<Longrightarrow>
   tasks (run cs s) i = Some r"
proof (induction cs arbitrary: s)
  case Nil
  then show ?case by simp
next
  case (Cons ec cs)
  obtain e c where ec: "ec = (e, c)" by (cases ec)
  have "tasks (exec e c s) i = Some r"
    using Cons.prems ec by (simp add: exec_keeps_task)
  then show ?case
    using Cons.IH [of "exec e c s"] Cons.prems(2) ec by simp
qed

text \<open>
  Claim C4. Once a call through \<^verbatim>\<open>UniqPromise\<close> has completed for a key, with a value
  or with a failure, its outcome is stored under the key. It stays there through every
  sequence of calls of the module that contains neither \<^verbatim>\<open>deleteTask\<close> of that key nor
  \<^verbatim>\<open>clearCache\<close>, and a later call with the key, with any function, returns the stored
  outcome and leaves the state as it is: the function is not run. \<^verbatim>\<open>deleteTask\<close> of the
  key and \<^verbatim>\<open>clearCache\<close> remove the entry.
\<close>

theorem UniqPromise_entry_remains:
  assumes "UniqPromise fn i s0 = (r, s)"
    and "\<forall>ec\<in>set cs. snd ec \<noteq> CallDeleteTask i \<and> snd ec \<noteq> CallClearCache"
  shows "tasks s i = Some r
       \<and> tasks (run cs s) i = Some r
       \<and> UniqPromise fn' i (run cs s) = (r, run cs s)
       \<and> LoadIconSet e i (run cs s) = (r, run cs s)
       \<and> tasks (deleteTask i (run cs s)) i = None
       \<and> tasks (snd (clearCache (run cs s))) i = None"
proof -
  have stored: "tasks s i = Some r"
    using assms(1)
    by (auto simp add: UniqPromise_def split: option.splits prod.splits)
  then have later: "tasks (run cs s) i = Some r"
    using assms(2) by (rule run_keeps_task)
  then have "UniqPromise fn' i (run cs s) = (r, run cs s)"
    and "LoadIconSet e i (run cs s) = (r, run cs s)"
    by (simp_all add: LoadIconSet_def UniqPromise_def)
  moreover have "tasks (deleteTask i (run cs s)) i = None"
    by (simp add: deleteTask_def)
  moreover have "tasks (snd (clearCache (run cs s))) i = None"
    by (simp add: clearCache_tasks)
  ultimately show ?thesis
    using stored later by simp
qed


theorem UniqPromise_entry_remains_witness:
  "UniqPromise (loadIconSetTask demo_env) ''missing'' demo_state
     = (Inr None, demo_state\<lparr>tasks := [''missing'' \<mapsto> Inr None]\<rparr>)
   \<and> LoadIconSet demo_env ''missing''
        (run [(demo_env, CallGetIconInfo ''demo:a'' True), (demo_env, CallDeleteTask ''demo'')]
           (demo_state\<lparr>tasks := [''missing'' \<mapsto> Inr None]\<rparr>))
       = (Inr None,
          run [(demo_env, CallGetIconInfo ''demo:a'' True), (demo_env, CallDeleteTask ''demo'')]
            (demo_state\<lparr>tasks := [''missing'' \<mapsto> Inr None]\<rparr>))"
proof -
  have first: "UniqPromise (loadIconSetTask demo_env) ''missing'' demo_state
     = (Inr None, demo_state\<lparr>tasks := [''missing'' \<mapsto> Inr None]\<rparr>)"
    by (simp add: load_defs demo_world_defs)
  have calls: "\<forall>ec\<in>set [(demo_env, CallGetIconInfo ''demo:a'' True),
                           (demo_env, CallDeleteTask ''demo'')].
                 snd ec \<noteq> CallDeleteTask ''missing'' \<and> snd ec \<noteq> CallClearCache"
    by simp
  show ?thesis
    using first UniqPromise_entry_remains [OF first calls] by simp
qed

section \<open>Properties of loading\<close>

text \<open>Without entries of the legacy prefix the migration changes nothing.\<close>

lemma migrateKeys_no_legacy:
  "\<forall>k\<in>set ks. \<not> startsWith k ''icons-'' \<Longrightarrow> migrateKeys ks s = s"
  by (induction ks arbitrary: s) simp_all

lemma migrateCache_no_legacy:
  "\<forall>k\<in>fst ` set (globalState s). \<not> startsWith k ''icons-'' \<Longrightarrow> migrateCache s = s"
  by (simp add: migrateCache_def migrateKeys_no_legacy)

text \<open>
  Claim C3. A call of \<^verbatim>\<open>LoadIconSet\<close> for an id without a task entry, after the
  migration of the legacy store that precedes every load, takes the icon set from the
  first of these that has it: the in-memory map; the custom collections, by prefix;
  the persisted file, which it then puts into the in-memory map; the network, at
  \<^verbatim>\<open>{cdnEntry}/{id}.json\<close>, which it then puts into the in-memory map and writes to the
  persisted file. When the write fails the load returns the same icon set; when the
  fetch fails the call resolves with no data. It never throws.
\<close>

theorem LoadIconSet_order:
  assumes "tasks s i = None"
  shows
    "(loadedIconSets (migrateCache s) i = Some d \<longrightarrow>
        LoadIconSet e i s
          = (Inr (Some d), (migrateCache s)\<lparr>tasks := (tasks s)(i \<mapsto> Inr (Some d))\<rparr>))
   \<and> (loadedIconSets (migrateCache s) i = None
        \<and> find (\<lambda>c. prefix c = i) (customCollections e) = Some d \<longrightarrow>
        LoadIconSet e i s
          = (Inr (Some d), (migrateCache s)\<lparr>tasks := (tasks s)(i \<mapsto> Inr (Some d))\<rparr>))
   \<and> (loadedIconSets (migrateCache s) i = None
        \<and> find (\<lambda>c. prefix c = i) (customCollections e) = None
        \<and> loadCache i (migrateCache s) = Some d \<longrightarrow>
        LoadIconSet e i s
          = (Inr (Some d),
             (migrateCache s)\<lparr>loadedIconSets := (loadedIconSets (migrateCache s))(i \<mapsto> d),
                               tasks := (tasks s)(i \<mapsto> Inr (Some d))\<rparr>))
   \<and> (loadedIconSets (migrateCache s) i = None
        \<and> find (\<lambda>c. prefix c = i) (customCollections e) = None
        \<and> loadCache i (migrateCache s) = None
        \<and> network s (cdnEntry e @ ''/'' @ i @ ''.json'') = Some d \<longrightarrow>
        fst (LoadIconSet e i s) = Inr (Some d)
        \<and> loadedIconSets (snd (LoadIconSet e i s)) i = Some d
        \<and> (fsWritable s \<longrightarrow> loadCache i (snd (LoadIconSet e i s)) = Some d)
        \<and> (\<not> fsWritable s \<longrightarrow> cacheDir (snd (LoadIconSet e i s)) = cacheDir (migrateCache s)))
   \<and> (loadedIconSets (migrateCache s) i = None
        \<and> find (\<lambda>c. prefix c = i) (customCollections e) = None
        \<and> loadCache i (migrateCache s) = None
        \<and> network s (cdnEntry e @ ''/'' @ i @ ''.json'') = None \<longrightarrow>
        LoadIconSet e i s = (Inr None, (migrateCache s)\<lparr>tasks := (tasks s)(i \<mapsto> Inr None)\<rparr>))
   \<and> fst (LoadIconSet e i s) \<noteq> Inl x"
proof -
  have never: "fst (LoadIconSet e i s) \<noteq> Inl x"
    using assms loadIconSetTask_resolves [of e i s]
    by (auto simp add: LoadIconSet_def UniqPromise_def split: prod.splits)
  show ?thesis
    using assms never
    by (auto simp add: LoadIconSet_def UniqPromise_def loadIconSetTask_def Let_def
        migrateCache_fields writeCache_def fs_writeFile_def loadCache_def)
qed

theorem LoadIconSet_order_witness:
  "tasks first_start_state ''demo'' = None
   \<and> fst (LoadIconSet demo_env ''demo'' first_start_state) = Inr (Some demo_data)
   \<and> loadedIconSets (snd (LoadIconSet demo_env ''demo'' first_start_state)) ''demo''
       = Some demo_data
   \<and> cacheDir (snd (LoadIconSet demo_env ''demo'' first_start_state)) = None
   \<and> fst (LoadIconSet demo_env ''missing'' first_start_state) = Inr None
   \<and> fst (LoadIconSet demo_env ''demo'' demo_state) = Inr (Some demo_data)"
proof -
  have t: "tasks first_start_state i = None" "tasks demo_state i = None" for i
    by (simp_all add: first_start_state_def demo_state_def)
  have m: "migrateCache first_start_state = first_start_state"
    "migrateCache demo_state = demo_state"
    by (simp_all add: migrateCache_def first_start_state_def demo_state_def startsWith_def)
  have facts:
    "loadedIconSets first_start_state i = None"
    "find (\<lambda>c. prefix c = i) (customCollections demo_env) = None"
    "loadCache i first_start_state = None"
    "network first_start_state (cdnEntry demo_env @ ''/'' @ ''demo'' @ ''.json'') = Some demo_data"
    "network first_start_state (cdnEntry demo_env @ ''/'' @ ''missing'' @ ''.json'') = None"
    "\<not> fsWritable first_start_state"
    "cacheDir first_start_state = None"
    "loadedIconSets demo_state ''demo'' = Some demo_data" for i
    by (simp_all add: first_start_state_def demo_state_def demo_env_def loadCache_def)
  show ?thesis
    using LoadIconSet_order [OF t(1), of "''demo''" demo_data demo_env]
          LoadIconSet_order [OF t(1), of "''missing''" demo_data demo_env]
          LoadIconSet_order [OF t(2), of "''demo''" demo_data demo_env]
          t m facts
    by simp
qed

section \<open>Properties of clearing\<close>

lemma clearLegacy_globalState:
  "globalState (clearLegacy ks s)
     = filter (\<lambda>(k, v). \<not> (k \<in> set ks \<and> startsWith k ''icons-'')) (globalState s)"
proof (induction ks arbitrary: s)
  case Nil
  then show ?case by simp
next
  case (Cons i ids)
  show ?case
    by (auto simp add: Cons.IH intro!: filter_cong)
qed

lemma clearLegacy_other_fields:
  "cacheDir (clearLegacy ks s) = cacheDir s"
  by (induction ks arbitrary: s) simp_all

lemma clearCache_clears:
  assumes "cacheDir s \<noteq> None" and "fsWritable s"
  shows "fst (clearCache s) = Inr ()
       \<and> tasks (snd (clearCache s)) = Map.empty
       \<and> loadedIconSets (snd (clearCache s)) = Map.empty
       \<and> dataURLCache (snd (clearCache s)) = Map.empty
       \<and> cacheDir (snd (clearCache s)) = None
       \<and> globalState (snd (clearCache s))
           = filter (\<lambda>(k, v). \<not> startsWith k ''icons-'') (globalState s)"
proof -
  have "filter (\<lambda>(k, v). \<not> (k \<in> fst ` set (globalState s) \<and> startsWith k ''icons-''))
          (globalState s)
        = filter (\<lambda>(k, v). \<not> startsWith k ''icons-'') (globalState s)"
    by (rule filter_cong) force+
  then show ?thesis
    using assms
    by (auto simp add: clearCache_def Let_def fs_delete_def clearLegacy_fields
        clearLegacy_globalState clearLegacy_other_fields)
qed

lemma clearCache_missing_directory:
  "cacheDir s = None \<Longrightarrow> clearCache s = (Inl FileNotFound, s\<lparr>tasks := Map.empty\<rparr>)"
  by (simp add: clearCache_def Let_def fs_delete_def)

text \<open>
  Claim C7. \<^verbatim>\<open>clearCache\<close> is not to throw when the cache directory does not exist, and
  is to empty the task map, the legacy entries and both in-memory caches in every
  case. Without the directory the unguarded \<^verbatim>\<open>await workspace.fs.delete\<close> rejects:
  \<^verbatim>\<open>clearCache\<close> throws after it has reset the task map only, and the loaded icon set,
  the cached data URL and the legacy entry are still there.
\<close>

theorem clearCache_throws_without_directory:
  "cacheDir legacy_state = None
   \<and> fst (clearCache legacy_state) = Inl FileNotFound
   \<and> tasks (snd (clearCache legacy_state)) ''demo'' = None
   \<and> loadedIconSets (snd (clearCache legacy_state)) ''demo'' = Some demo_data
   \<and> dataURLCache (snd (clearCache legacy_state)) ''#fff32demo:a''
       = Some ''data:image/svg+xml;base64,x''
   \<and> map_of (globalState (snd (clearCache legacy_state))) ''icons-old'' = Some cycle_data"
proof -
  have none: "cacheDir legacy_state = None"
    by (simp add: legacy_state_def demo_state_def)
  show ?thesis
    unfolding clearCache_missing_directory [OF none]
    by (simp add: legacy_state_def demo_state_def)
qed

section \<open>Properties of the data URL cache\<close>

lemma clearCache_dataURLCache:
  "dataURLCache (snd (clearCache s)) = dataURLCache s
   \<or> dataURLCache (snd (clearCache s)) = Map.empty"
  by (auto simp add: clearCache_def Let_def fs_delete_def split: option.splits)

lemma getDataURL_cache_nonempty:
  assumes "\<forall>ck. dataURLCache s ck \<noteq> Some []"
  shows "dataURLCache (snd (getDataURL e keyOrInfo f s)) ck \<noteq> Some []"
  using getDataURL_state [of e keyOrInfo f s] assms
  by (auto simp add: render_fields getIconInfo_dataURLCache toDataUrl_nonempty
      split: if_splits)

lemma exec_cache_nonempty:
  assumes "\<forall>ck. dataURLCache s ck \<noteq> Some []"
  shows "dataURLCache (exec e c s) ck \<noteq> Some []"
proof (cases c)
  case (CallLoadIconSet i)
  then show ?thesis using assms by (simp add: LoadIconSet_dataURLCache)
next
  case (CallDeleteTask i)
  then show ?thesis using assms by (simp add: deleteTask_def)
next
  case CallClearCache
  then show ?thesis using assms clearCache_dataURLCache [of s] by auto
next
  case (CallGetIconInfo k allowAliases)
  then show ?thesis using assms by (simp add: getIconInfo_dataURLCache)
next
  case (CallGetDataURL keyOrInfo f)
  then show ?thesis using getDataURL_cache_nonempty [OF assms] by simp
qed

lemma run_cache_nonempty:
  "\<forall>ck. dataURLCache s ck \<noteq> Some [] \<Longrightarrow> dataURLCache (run cs s) ck \<noteq> Some []"
proof (induction cs arbitrary: s ck)
  case Nil
  then show ?case by simp
next
  case (Cons ec cs)
  obtain e c where ec: "ec = (e, c)" by (cases ec)
  have "\<forall>ck. dataURLCache (exec e c s) ck \<noteq> Some []"
    using exec_cache_nonempty [OF Cons.prems] by simp
  then show ?case
    using Cons.IH [of "exec e c s"] ec by simp
qed

lemma getDataURL_Key_miss:
  assumes "dataURLCache s (color e @ string_of_nat (coalesce f 32) @ k) = None
           \<or> dataURLCache s (color e @ string_of_nat (coalesce f 32) @ k) = Some []"
  shows "getDataURL e (Key k) f s =
           (case getIconInfo e k True s of
              (Inl err, s') \<Rightarrow> (Inl err, s')
            | (Inr (Value i), s') \<Rightarrow>
                render e (color e @ string_of_nat (coalesce f 32) @ k) i (coalesce f 32) s'
            | (Inr _, s') \<Rightarrow> (Inr [], s'))"
  using assms by (auto simp add: getDataURL_def Let_def)

lemma getDataURL_Key_hit:
  assumes "dataURLCache s (color e @ string_of_nat (coalesce f 32) @ k) = Some (c # cs)"
  shows "getDataURL e (Key k) f s = (Inr (c # cs), s)"
  using assms by (simp add: getDataURL_def Let_def)

text \<open>
  Claim C10. From a start with an empty data URL cache, no sequence of calls of the
  module stores an empty string in it. When the key misses the cache and its
  resolution fails, \<^verbatim>\<open>getDataURL\<close> returns the empty string and leaves the cache as it
  is; an empty result arises in no other way. A later call that misses the cache is
  answered from the resolution at that time: when that succeeds, with the rendered
  data URL.
\<close>

theorem dataURLCache_never_stores_empty:
  assumes "dataURLCache s0 = Map.empty"
  shows "dataURLCache (run cs s0) ck \<noteq> Some []
   \<and> (dataURLCache s (color e @ string_of_nat (coalesce f 32) @ k) = None
        \<and> (fst (getIconInfo e k True s) = Inr Null \<or> fst (getIconInfo e k True s) = Inr Undefined)
      \<longrightarrow> fst (getDataURL e (Key k) f s) = Inr []
          \<and> dataURLCache (snd (getDataURL e (Key k) f s)) = dataURLCache s)
   \<and> (fst (getDataURL e (Key k) f (run cs s0)) = Inr []
      \<longrightarrow> (fst (getIconInfo e k True (run cs s0)) = Inr Null
            \<or> fst (getIconInfo e k True (run cs s0)) = Inr Undefined)
          \<and> dataURLCache (snd (getDataURL e (Key k) f (run cs s0))) = dataURLCache (run cs s0)
          \<and> dataURLCache (run cs s0) (color e @ string_of_nat (coalesce f 32) @ k) = None)
   \<and> (dataURLCache s (color e @ string_of_nat (coalesce f 32) @ k) = None
        \<and> fst (getIconInfo e k True s) = Inr (Value info)
      \<longrightarrow> fst (getDataURL e (Key k) f s)
            = Inr (toDataUrl e (replaceAll ''currentColor'' (color e)
                                  (pathToSvg e info (coalesce f 32)))))"
proof -
  let ?ck = "color e @ string_of_nat (coalesce f 32) @ k"
  have inv: "dataURLCache (run cs s0) ck \<noteq> Some []" for ck
    using assms by (intro run_cache_nonempty) simp
  have fail: "fst (getDataURL e (Key k) f s) = Inr []
          \<and> dataURLCache (snd (getDataURL e (Key k) f s)) = dataURLCache s"
    if miss: "dataURLCache s ?ck = None"
      and unresolved: "fst (getIconInfo e k True s) = Inr Null
                       \<or> fst (getIconInfo e k True s) = Inr Undefined"
    for s
  proof -
    obtain r s' where g: "getIconInfo e k True s = (r, s')"
      by (cases "getIconInfo e k True s")
    then have "dataURLCache s' = dataURLCache s"
      using getIconInfo_dataURLCache [of e k True s] by simp
    then show ?thesis
      using unresolved g getDataURL_Key_miss [of s e f k] miss by auto
  qed
  have success: "fst (getDataURL e (Key k) f s)
            = Inr (toDataUrl e (replaceAll ''currentColor'' (color e)
                                  (pathToSvg e info (coalesce f 32))))"
    if miss: "dataURLCache s ?ck = None"
      and resolved: "fst (getIconInfo e k True s) = Inr (Value info)"
    for s
  proof -
    obtain r s' where g: "getIconInfo e k True s = (r, s')"
      by (cases "getIconInfo e k True s")
    then show ?thesis
      using resolved getDataURL_Key_miss [of s e f k] miss by (auto simp add: render_fields)
  qed
  have empty: "(fst (getIconInfo e k True s) = Inr Null
            \<or> fst (getIconInfo e k True s) = Inr Undefined)
          \<and> dataURLCache (snd (getDataURL e (Key k) f s)) = dataURLCache s
          \<and> dataURLCache s ?ck = None"
    if result: "fst (getDataURL e (Key k) f s) = Inr []"
      and inv: "dataURLCache s ?ck \<noteq> Some []"
    for s
  proof (cases "dataURLCache s ?ck")
    case None
    obtain r s' where g: "getIconInfo e k True s = (r, s')"
      by (cases "getIconInfo e k True s")
    have unresolved: "r = Inr Null \<or> r = Inr Undefined"
    proof (cases r)
      case (Inl err)
      then show ?thesis
        using result g getDataURL_Key_miss [of s e f k] None by simp
    next
      case (Inr v)
      then show ?thesis
        using result g getDataURL_Key_miss [of s e f k] None
        by (cases v) (simp_all add: render_fields toDataUrl_nonempty)
    qed
    then show ?thesis
      using fail [OF None] g None by auto
  next
    case (Some url)
    then obtain c cs where "url = c # cs"
      using inv by (cases url) auto
    then show ?thesis
      using result Some getDataURL_Key_hit [of s e f k c cs] by simp
  qed
  show ?thesis
    using inv fail success empty [OF _ inv] by blast
qed


theorem dataURLCache_never_stores_empty_witness:
  "dataURLCache first_start_state = Map.empty
   \<and> dataURLCache (run [(demo_env, CallGetDataURL (Key ''demo:wide'') None)] first_start_state)
         ''#fff32demo:wide'' \<noteq> Some []
   \<and> fst (getIconInfo demo_env ''missing:a'' True first_start_state) = Inr Null
   \<and> fst (getDataURL demo_env (Key ''missing:a'') None first_start_state) = Inr []
   \<and> dataURLCache (snd (getDataURL demo_env (Key ''missing:a'') None first_start_state))
       = Map.empty
   \<and> fst (getDataURL demo_env (Key ''demo:wide'') None first_start_state)
       = Inr (toDataUrl demo_env
                (replaceAll ''currentColor'' ''#fff''
                   (pathToSvg demo_env
                      \<lparr> left = Some 0, top' = Some 0, width = Some 20, height = Some 10,
                        rotate' = None, hFlip = None, vFlip = None, body = Some ''<path/>'',
                        key = ''demo:wide'', ratio = Finite 2, collection = ''demo'',
                        id' = ''wide'' \<rparr> 32)))"
proof -
  have start: "dataURLCache first_start_state = Map.empty"
    by (simp add: first_start_state_def)
  have unresolved: "fst (getIconInfo demo_env ''missing:a'' True first_start_state) = Inr Null"
    by (simp add: getIconInfo_def load_defs first_start_state_def demo_env_def split_colon_def
        coalesce_def)
  have resolved: "fst (getIconInfo demo_env ''demo:wide'' True first_start_state) =
      Inr (Value \<lparr> left = Some 0, top' = Some 0, width = Some 20, height = Some 10,
                   rotate' = None, hFlip = None, vFlip = None, body = Some ''<path/>'',
                   key = ''demo:wide'', ratio = Finite 2, collection = ''demo'',
                   id' = ''wide'' \<rparr>)"
    by (simp add: getIconInfo_def load_defs first_start_state_def demo_env_def split_colon_def
        demo_defs resolver_defs makeIconInfo_def js_div_def round_to_double_small or_else_def truthy_def
        iconify_icon.defs icon_info.defs)
  have c: "color demo_env = ''#fff''" "coalesce None (32::nat) = 32"
    by (simp_all add: demo_env_def coalesce_def)
  show ?thesis
    using dataURLCache_never_stores_empty
            [OF start, of "[(demo_env, CallGetDataURL (Key ''demo:wide'') None)]"
               "''#fff32demo:wide''" first_start_state demo_env None "''missing:a''"]
          dataURLCache_never_stores_empty
            [OF start, of "[]" "''#fff32demo:wide''" first_start_state demo_env None
               "''demo:wide''"
               "\<lparr> left = Some 0, top' = Some 0, width = Some 20, height = Some 10,
                  rotate' = None, hFlip = None, vFlip = None, body = Some ''<path/>'',
                  key = ''demo:wide'', ratio = Finite 2, collection = ''demo'',
                  id' = ''wide'' \<rparr>"]
          start unresolved resolved c
    by simp
qed

end
